theory Spec2Isabelle
  imports Complex_Main "HOL-Library.Word"
begin

section \<open>Data model (the Url schema)\<close>

text \<open>
  A JavaScript \<open>Date\<close> is its \<open>getTime()\<close> value: milliseconds since the epoch, an integer.
  Counters are JavaScript numbers that only ever hold small integers; they are unbounded
  integers here. An \<open>ObjectId\<close> is a natural number. A field that may be \<open>undefined\<close> or
  \<open>null\<close> is an \<open>option\<close>.
\<close>

type_synonym date = int
type_synonym objectId = nat

text \<open>The analytics data a request carries (\<open>clickData\<close>), and \<open>clickSchema\<close>, which adds
  the timestamp.\<close>

record clickData =
  ip :: "string option"
  userAgent :: "string option"
  referer :: "string option"

record click = clickData +
  timestamp :: date

text \<open>An element of \<open>dailyStats\<close>: \<open>{ date, clicks }\<close>. The fields carry the prefix
  \<open>stat_\<close> because \<open>clicks\<close> is also a field of the document itself.\<close>

record dailyStat =
  stat_date :: date
  stat_clicks :: int

text \<open>The document of \<open>urlSchema\<close>, with \<open>_id\<close> (\<open>oid\<close>) and the two fields that
  \<open>timestamps: true\<close> adds.\<close>

record url =
  oid :: objectId
  originalUrl :: string
  shortCode :: string
  userId :: "objectId option"
  title :: string
  description :: string
  clicks :: int
  lastClicked :: "date option"
  isActive :: bool
  expiryDate :: "date option"
  qrCode :: "string option"
  tags :: "string list"
  recentClicks :: "click list"
  dailyStats :: "dailyStat list"
  createdAt :: date
  updatedAt :: date

text \<open>The collection is the list of its documents, in insertion order.\<close>

type_synonym store = "url list"

text \<open>What is thrown: a \<open>TypeError\<close> of the runtime, a rejected store call, the
  duplicate-key error 11000 with the first key of its \<open>keyPattern\<close>, a Mongoose
  \<open>ValidationError\<close>, the \<open>Error\<close> of \<open>generateShortCode\<close> after all attempts, and
  \<open>PaddedArray\<close>, explained at \<open>applyDaily\<close>.\<close>

datatype error =
    TypeError
  | StoreError
  | DuplicateKey string
  | ValidationError
  | GenerationExhausted
  | PaddedArray

section \<open>Store primitives\<close>

definition findById :: "objectId \<Rightarrow> store \<Rightarrow> url option" where
  "findById i s = find (\<lambda>d. oid d = i) s"

text \<open>\<open>findOne({ shortCode })\<close>.\<close>

definition findOneByShortCode :: "string \<Rightarrow> store \<Rightarrow> url option" where
  "findOneByShortCode c s = find (\<lambda>d. shortCode d = c) s"

text \<open>\<open>findOne({ shortCode, isActive: true })\<close>.\<close>

definition findOneActiveByShortCode :: "string \<Rightarrow> store \<Rightarrow> url option" where
  "findOneActiveByShortCode c s = find (\<lambda>d. shortCode d = c \<and> isActive d) s"

text \<open>\<open>findOne({ userId, originalUrl, isActive: true })\<close>.\<close>

definition findOneActiveByUserUrl :: "objectId option \<Rightarrow> string \<Rightarrow> store \<Rightarrow> url option" where
  "findOneActiveByUserUrl u ou s = find (\<lambda>d. userId d = u \<and> originalUrl d = ou \<and> isActive d) s"

text \<open>Replacing the first document that has the given \<open>_id\<close>.\<close>

fun replaceById :: "objectId \<Rightarrow> url \<Rightarrow> store \<Rightarrow> store" where
  "replaceById i r [] = []"
| "replaceById i r (d # s) = (if oid d = i then r # s else d # replaceById i r s)"

text \<open>\<open>$push\<close> with \<open>$each\<close> and a negative \<open>$slice: -n\<close>: append, then keep the last
  \<open>n\<close> elements.\<close>

definition pushSlice :: "'a list \<Rightarrow> 'a list \<Rightarrow> nat \<Rightarrow> 'a list" where
  "pushSlice xs each n = drop (length (xs @ each) - n) (xs @ each)"

text \<open>\<open>Array.prototype.findIndex\<close>: the index of the first element that satisfies the
  predicate, \<open>-1\<close> when there is none.\<close>

fun findIndex :: "('a \<Rightarrow> bool) \<Rightarrow> 'a list \<Rightarrow> int" where
  "findIndex P [] = - 1"
| "findIndex P (x # xs) =
     (if P x then 0 else (let i = findIndex P xs in if i < 0 then - 1 else i + 1))"

section \<open>incrementClicks\<close>

text \<open>
  The update document that \<open>incrementClicks\<close> builds. \<open>$inc: { clicks: 1 }\<close>,
  \<open>$set: { lastClicked: now }\<close> and the \<open>$push\<close> on \<open>recentClicks\<close> with
  \<open>$slice: -1000\<close> are always present; the daily part is either
  \<open>$inc: { 'dailyStats.<i>.clicks': 1 }\<close> or a \<open>$push\<close> on \<open>dailyStats\<close> with
  \<open>$slice: -365\<close>.
\<close>

datatype dailyUpdate =
    IncDaily nat int
  | PushDaily "dailyStat list" nat

record updateData =
  inc_clicks :: int
  set_lastClicked :: date
  push_recentClicks_each :: "click list"
  push_recentClicks_slice :: nat
  daily :: dailyUpdate

text \<open>
  What the store does with the daily part. A positional \<open>$inc\<close> past the end of the stored
  array makes MongoDB pad the array with \<open>null\<close>s and create an element without a date; such
  an array is not a \<open>dailyStat list\<close>, and the model reports it as \<open>PaddedArray\<close>.
  The arrays of a stored document never shrink, so a document that was read from the collection
  never asks for it (lemma \<open>applyDaily_in_range\<close>).
\<close>

fun applyDaily :: "dailyUpdate \<Rightarrow> dailyStat list \<Rightarrow> error + dailyStat list" where
  "applyDaily (IncDaily i n) ds =
     (if i < length ds then Inr (ds[i := (ds ! i)\<lparr>stat_clicks := stat_clicks (ds ! i) + n\<rparr>])
      else Inl PaddedArray)"
| "applyDaily (PushDaily each n) ds = Inr (pushSlice ds each n)"

definition applyUpdate :: "updateData \<Rightarrow> date \<Rightarrow> url \<Rightarrow> error + url" where
  "applyUpdate u t d =
     (case applyDaily (daily u) (dailyStats d) of
        Inl e \<Rightarrow> Inl e
      | Inr ds \<Rightarrow> Inr (d\<lparr>clicks := clicks d + inc_clicks u,
                         lastClicked := Some (set_lastClicked u),
                         recentClicks := pushSlice (recentClicks d) (push_recentClicks_each u)
                                           (push_recentClicks_slice u),
                         dailyStats := ds,
                         updatedAt := t\<rparr>))"

text \<open>
  \<open>findByIdAndUpdate(id, update, { new: true, runValidators: true })\<close>: the store may be
  unavailable (the call rejects and nothing is written); no document with the id gives
  \<open>null\<close>; otherwise the update is applied to the stored document in one step and the
  updated document is returned. \<open>t\<close> is the time Mongoose writes to \<open>updatedAt\<close>.
\<close>

definition findByIdAndUpdate ::
  "bool \<Rightarrow> objectId \<Rightarrow> updateData \<Rightarrow> date \<Rightarrow> store \<Rightarrow> error + (url option \<times> store)" where
  "findByIdAndUpdate up i u t s =
     (if \<not> up then Inl StoreError
      else case findById i s of
             None \<Rightarrow> Inr (None, s)
           | Some d \<Rightarrow> (case applyUpdate u t d of
                          Inl e \<Rightarrow> Inl e
                        | Inr d' \<Rightarrow> Inr (Some d', replaceById i d' s)))"

text \<open>
  One call of \<open>incrementClicks\<close>: the two clock readings (\<open>new Date()\<close> in the method, and
  the one Mongoose takes for \<open>updatedAt\<close>), whether the store answers, and the click data.
\<close>

record call =
  call_now :: date
  call_updatedAt :: date
  call_storeUp :: bool
  call_data :: clickData

text \<open>
  \<open>localMidnight\<close> stands for \<open>new Date(now.getFullYear(), now.getMonth(), now.getDate())\<close>:
  midnight of the day of \<open>now\<close> in the time zone of the process. It is a parameter.
  \<open>clickEntry\<close> is the object literal pushed to \<open>recentClicks\<close>.
  \<open>this\<close> is the document in memory, \<open>s\<close> the collection. The index of today's entry is
  looked up in \<open>this\<close>; the update is applied to the stored document. A \<open>null\<close> result
  makes \<open>result.clicks\<close> throw a \<open>TypeError\<close>; every error is logged and thrown again.
  On success \<open>Object.assign(this, result.toObject())\<close> makes \<open>this\<close> the result, which is
  returned together with the collection. The deferred, best-effort update of the owner's
  \<open>totalClicks\<close> is in another collection and is not represented.
\<close>

definition clickEntry :: "date \<Rightarrow> clickData \<Rightarrow> click" where
  "clickEntry now clickData =
     \<lparr>ip = ip clickData, userAgent = userAgent clickData, referer = referer clickData,
      timestamp = now\<rparr>"

definition incrementClicks ::
  "(date \<Rightarrow> date) \<Rightarrow> call \<Rightarrow> url \<Rightarrow> store \<Rightarrow> error + (url \<times> store)" where
  "incrementClicks localMidnight c this s =
     (let now = call_now c;
          today = localMidnight now;
          todayStatsIndex = findIndex (\<lambda>stat. stat_date stat = today) (dailyStats this);
          updateData = \<lparr>inc_clicks = 1,
                        set_lastClicked = now,
                        push_recentClicks_each = [clickEntry now (call_data c)],
                        push_recentClicks_slice = 1000,
                        daily = (if todayStatsIndex \<ge> 0 then IncDaily (nat todayStatsIndex) 1
                                 else PushDaily [\<lparr>stat_date = today, stat_clicks = 1\<rparr>] 365)\<rparr>
      in case findByIdAndUpdate (call_storeUp c) (oid this) updateData (call_updatedAt c) s of
           Inl e \<Rightarrow> Inl e
         | Inr (None, s') \<Rightarrow> Inl TypeError
         | Inr (Some result, s') \<Rightarrow> Inr (result, s'))"

text \<open>The loop of \<open>bulkUpdateClicks\<close> over the clicks of one document:
  \<open>for (const clickData of urlClicks) await url.incrementClicks(clickData)\<close>. The first
  error leaves the loop.\<close>

fun incrementClicksLoop ::
  "(date \<Rightarrow> date) \<Rightarrow> call list \<Rightarrow> url \<Rightarrow> store \<Rightarrow> error + (url \<times> store)" where
  "incrementClicksLoop localMidnight [] this s = Inr (this, s)"
| "incrementClicksLoop localMidnight (c # cs) this s =
     (case incrementClicks localMidnight c this s of
        Inl e \<Rightarrow> Inl e
      | Inr (this', s') \<Rightarrow> incrementClicksLoop localMidnight cs this' s')"

section \<open>generateShortCode\<close>

definition characters :: string where
  "characters = ''abcdefghijklmnopqrstuvwxyzABCDEFGHIJKLMNOPQRSTUVWXYZ0123456789_-''"

definition maxAttempts :: nat where
  "maxAttempts = 50"

text \<open>\<open>String.prototype.charAt\<close>: the empty string when the index is out of range.\<close>

definition charAt :: "string \<Rightarrow> int \<Rightarrow> string" where
  "charAt str k = (if 0 \<le> k \<and> k < int (length str) then [str ! nat k] else [])"

text \<open>\<open>String.prototype.substring(a, b)\<close> for non-negative arguments: they are swapped when
  \<open>a > b\<close> and clamped to the length.\<close>

definition substring :: "string \<Rightarrow> nat \<Rightarrow> nat \<Rightarrow> string" where
  "substring str a b = take (max a b - min a b) (drop (min a b) str)"

text \<open>\<open>Number.prototype.toString(36)\<close> on a non-negative integer.\<close>

definition digits36 :: string where
  "digits36 = ''0123456789abcdefghijklmnopqrstuvwxyz''"

fun toString36 :: "nat \<Rightarrow> string" where
  "toString36 n =
     (if n < 36 then [digits36 ! n] else toString36 (n div 36) @ [digits36 ! (n mod 36)])"

declare toString36.simps [simp del]

text \<open>
  The randomness of one attempt. \<open>RandomBytes b\<close>: \<open>crypto.randomBytes(length)\<close> returned a
  buffer whose \<open>i\<close>-th byte is \<open>b i\<close>. \<open>MathRandom r\<close>: \<open>require\<close> is undefined or
  \<open>crypto\<close> threw, and the \<open>i\<close>-th call of \<open>Math.random()\<close> returned \<open>r i\<close>; the product
  with the alphabet size, a power of two, is exact, so the value is a rational number.
\<close>

datatype randomSource =
    RandomBytes "nat \<Rightarrow> 8 word"
  | MathRandom "nat \<Rightarrow> rat"

definition randomChar :: "randomSource \<Rightarrow> nat \<Rightarrow> string" where
  "randomChar src i =
     (case src of
        RandomBytes randomBytes \<Rightarrow>
          charAt characters (int (unat (randomBytes i) mod length characters))
      | MathRandom random \<Rightarrow>
          charAt characters \<lfloor>random i * of_nat (length characters)\<rfloor>)"

text \<open>The inner loop \<open>for (let i = 0; i < length; i++) shortCode += ...\<close>.\<close>

definition randomCode :: "randomSource \<Rightarrow> nat \<Rightarrow> string" where
  "randomCode src len = concat (map (randomChar src) [0..<len])"

text \<open>
  What one call of \<open>generateShortCode\<close> reads from outside: the randomness of each attempt,
  \<open>Date.now()\<close>, and the string \<open>Math.random().toString(36)\<close> of the fallback. The
  collection is the same at every \<open>findOne\<close> of the call, and the store answers each of
  them.
\<close>

record genEnv =
  entropy :: "nat \<Rightarrow> randomSource"
  dateNow :: nat
  mathRandom36 :: string

text \<open>The loop \<open>for (let attempt = 0; attempt < maxAttempts; attempt++)\<close>; \<open>None\<close> when it
  ends without a \<open>return\<close>.\<close>

function attempts :: "genEnv \<Rightarrow> nat \<Rightarrow> store \<Rightarrow> nat \<Rightarrow> string option" where
  "attempts env len s attempt =
     (if attempt < maxAttempts
      then (let code = randomCode (entropy env attempt) len
            in if findOneByShortCode code s = None then Some code
               else attempts env len s (attempt + 1))
      else None)"
  by pat_completeness auto
termination
  by (relation "measure (\<lambda>(env, len, s, attempt). maxAttempts - attempt)") auto

declare attempts.simps [simp del]

definition fallbackCode :: "genEnv \<Rightarrow> nat \<Rightarrow> string" where
  "fallbackCode env len =
     (let stamp = toString36 (dateNow env);
          random = substring (mathRandom36 env) 2 8
      in substring (stamp @ random) 0 (max len 8))"

definition generateShortCode :: "genEnv \<Rightarrow> nat \<Rightarrow> store \<Rightarrow> error + string" where
  "generateShortCode env len s =
     (case attempts env len s 0 of
        Some code \<Rightarrow> Inr code
      | None \<Rightarrow>
          (if findOneByShortCode (fallbackCode env len) s = None
           then Inr (fallbackCode env len)
           else Inl GenerationExhausted))"


text \<open>\<open>Math.random()\<close> returns a number that is at least 0 and less than 1; this says so for
  the values an attempt of the given length reads.\<close>

definition unitInterval :: "randomSource \<Rightarrow> nat \<Rightarrow> bool" where
  "unitInterval src len =
     (case src of
        RandomBytes randomBytes \<Rightarrow> True
      | MathRandom random \<Rightarrow> list_all (\<lambda>i. 0 \<le> random i \<and> random i < 1) [0..<len])"

section \<open>Responses\<close>

text \<open>What a handler sends: \<open>res.status(n).json(...)\<close> with the message and, where there is
  one, the payload; or \<open>res.redirect(n, location)\<close>. The analytics summary carries the fields of
  \<open>data.analytics\<close>, except \<open>clickRate\<close>, which is floating-point arithmetic.\<close>

record analytics =
  totalClicks :: int
  weeklyClicks :: int
  monthlyClicks :: int
  recentTotal :: nat
  last24Hours :: nat
  last7Days :: nat
  recentStats :: "dailyStat list"
  topReferrers :: "(string \<times> int) list"
  isExpired :: bool

datatype body =
    Message string
  | UrlBody string url
  | AnalyticsBody url analytics

datatype response =
    Json nat body
  | Redirect nat string

text \<open>The lines the handlers write with \<open>console.error\<close>.\<close>

datatype logEntry =
    AnalyticsUpdateFailed error
  | RedirectError error
  | AnalyticsError error

section \<open>getUrlAnalytics\<close>

text \<open>A value that JavaScript takes as true in \<open>click.referer\<close>: a string that is present and
  not empty.\<close>

definition truthy :: "string option \<Rightarrow> bool" where
  "truthy x = (case x of None \<Rightarrow> False | Some str \<Rightarrow> str \<noteq> [])"

text \<open>\<open>acc[domain] = (acc[domain] || 0) + 1\<close> on an object that starts as \<open>{}\<close>: the keys in
  insertion order with their counts. (Host names that are members of \<open>Object.prototype\<close> are
  not distinguished.)\<close>

fun bump :: "string \<Rightarrow> (string \<times> int) list \<Rightarrow> (string \<times> int) list" where
  "bump domain [] = [(domain, 1)]"
| "bump domain ((k, v) # acc) =
     (if k = domain then (k, v + 1) # acc else (k, v) # bump domain acc)"

text \<open>
  The \<open>reduce\<close> of \<open>topReferrers\<close>. \<open>hostname\<close> stands for \<open>new URL(str).hostname\<close>: the
  host name of a string the URL parser accepts, \<open>None\<close> when the constructor throws its
  \<open>TypeError\<close>. The parser is the runtime's and is a parameter. Nothing catches the error
  inside the \<open>reduce\<close>.
\<close>

fun reduceReferrers ::
  "(string \<Rightarrow> string option) \<Rightarrow> click list \<Rightarrow> (string \<times> int) list \<Rightarrow> error + (string \<times> int) list" where
  "reduceReferrers hostname [] acc = Inr acc"
| "reduceReferrers hostname (click # rest) acc =
     (case referer click of
        None \<Rightarrow> Inl TypeError
      | Some str \<Rightarrow>
          (case hostname str of
             None \<Rightarrow> Inl TypeError
           | Some domain \<Rightarrow> reduceReferrers hostname rest (bump domain acc)))"

definition topReferrersOf :: "(string \<Rightarrow> string option) \<Rightarrow> click list \<Rightarrow> error + (string \<times> int) list" where
  "topReferrersOf hostname recent =
     reduceReferrers hostname (filter (\<lambda>click. truthy (referer click)) recent) []"

text \<open>The clock of one analytics request: the instants \<open>thirtyDaysAgo\<close> and \<open>sevenDaysAgo\<close>
  (local calendar arithmetic on \<open>new Date()\<close>), \<open>Date.now() - 24 * 60 * 60 * 1000\<close>, and the
  \<open>new Date()\<close> of \<open>isExpired\<close>.\<close>

record analyticsClock =
  thirtyDaysAgo :: date
  sevenDaysAgo :: date
  dayAgo :: date
  expiredNow :: date

text \<open>\<open>urlSchema.methods.isExpired\<close>; \<open>redirectToOriginal\<close> writes the same test on the
  document it has read.\<close>

definition isExpiredAt :: "date \<Rightarrow> url \<Rightarrow> bool" where
  "isExpiredAt now d = (case expiryDate d of None \<Rightarrow> False | Some e \<Rightarrow> e < now)"

text \<open>\<open>findOne({ _id: id, userId })\<close>.\<close>

definition findOneByIdUser :: "objectId \<Rightarrow> objectId \<Rightarrow> store \<Rightarrow> url option" where
  "findOneByIdUser i u s = find (\<lambda>d. oid d = i \<and> userId d = Some u) s"

text \<open>
  \<open>getUrlAnalytics\<close> for the document \<open>i\<close> and the user \<open>u\<close>; \<open>up\<close> says whether the store
  answers. Every exception ends in the handler's \<open>catch\<close>, which logs it and answers 500.
\<close>

definition getUrlAnalytics ::
  "(string \<Rightarrow> string option) \<Rightarrow> analyticsClock \<Rightarrow> bool \<Rightarrow> objectId \<Rightarrow> objectId \<Rightarrow> store
     \<Rightarrow> response \<times> logEntry list" where
  "getUrlAnalytics hostname clock up i u s =
     (if \<not> up
      then (Json 500 (Message ''Server error while fetching analytics''), [AnalyticsError StoreError])
      else case findOneByIdUser i u s of
        None \<Rightarrow> (Json 404 (Message ''URL not found''), [])
      | Some d \<Rightarrow>
          (let stats30 = sort_key stat_date
                           (filter (\<lambda>stat. stat_date stat \<ge> thirtyDaysAgo clock) (dailyStats d));
               weekly = sum_list (map stat_clicks
                           (filter (\<lambda>stat. stat_date stat \<ge> sevenDaysAgo clock) (dailyStats d)));
               monthly = sum_list (map stat_clicks stats30)
           in case topReferrersOf hostname (recentClicks d) of
                Inl e \<Rightarrow>
                  (Json 500 (Message ''Server error while fetching analytics''), [AnalyticsError e])
              | Inr referrers \<Rightarrow>
                  (Json 200 (AnalyticsBody d
                     \<lparr>totalClicks = clicks d,
                      weeklyClicks = weekly,
                      monthlyClicks = monthly,
                      recentTotal = length (recentClicks d),
                      last24Hours = length (filter (\<lambda>click. timestamp click \<ge> dayAgo clock)
                                              (recentClicks d)),
                      last7Days = length (filter (\<lambda>click. timestamp click \<ge> sevenDaysAgo clock)
                                            (recentClicks d)),
                      recentStats = stats30,
                      topReferrers = referrers,
                      isExpired = isExpiredAt (expiredNow clock) d\<rparr>), [])))"

section \<open>redirectToOriginal\<close>

text \<open>
  What one redirect request meets: whether \<open>validationResult(req)\<close> has errors, whether the
  store answers \<open>findOne\<close> and \<open>findById\<close>, the \<open>new Date()\<close> of the expiry check, the writes
  of other requests between \<open>findOne\<close> and \<open>findById\<close> and between \<open>findById\<close> and the
  update, and the call of \<open>incrementClicks\<close> with the click data taken from the request.
\<close>

record redirectEnv =
  validationErrors :: bool
  findOneUp :: bool
  findByIdUp :: bool
  expiryNow :: date
  othersBeforeFindById :: "store \<Rightarrow> store"
  othersBeforeUpdate :: "store \<Rightarrow> store"
  clickCall :: call

text \<open>The inner \<open>try\<close> block: \<open>findById\<close>, then \<open>incrementClicks\<close> when the document is
  there and active. Its \<open>catch\<close> logs the error and goes on.\<close>

definition recordClickTry ::
  "(date \<Rightarrow> date) \<Rightarrow> redirectEnv \<Rightarrow> url \<Rightarrow> store \<Rightarrow> store \<times> logEntry list" where
  "recordClickTry localMidnight env found s =
     (let s1 = othersBeforeFindById env s
      in if \<not> findByIdUp env then (s1, [AnalyticsUpdateFailed StoreError])
         else case findById (oid found) s1 of
                None \<Rightarrow> (s1, [])
              | Some urlDoc \<Rightarrow>
                  (if isActive urlDoc
                   then (let s2 = othersBeforeUpdate env s1
                         in case incrementClicks localMidnight (clickCall env) urlDoc s2 of
                              Inl e \<Rightarrow> (s2, [AnalyticsUpdateFailed e])
                            | Inr (result, s3) \<Rightarrow> (s3, []))
                   else (s1, [])))"

definition redirectToOriginal ::
  "(date \<Rightarrow> date) \<Rightarrow> redirectEnv \<Rightarrow> string \<Rightarrow> store \<Rightarrow> response \<times> store \<times> logEntry list" where
  "redirectToOriginal localMidnight env code s =
     (if validationErrors env then (Json 400 (Message ''Invalid short code format''), s, [])
      else if \<not> findOneUp env
      then (Json 500 (Message ''Server error during redirect''), s, [RedirectError StoreError])
      else case findOneActiveByShortCode code s of
             None \<Rightarrow> (Json 404 (Message ''Short URL not found''), s, [])
           | Some found \<Rightarrow>
               (if isExpiredAt (expiryNow env) found
                then (Json 410 (Message ''This short URL has expired''), s, [])
                else (let (s', logs) = recordClickTry localMidnight env found s
                      in (Redirect 302 (originalUrl found), s', logs))))"

section \<open>createShortUrl\<close>

text \<open>\<open>String.prototype.trim\<close>, which is also the schema's \<open>trim: true\<close>, on the ASCII white
  space characters.\<close>

definition isSpace :: "char \<Rightarrow> bool" where
  "isSpace c = (c \<in> set [CHR '' '', CHR 0x09, CHR 0x0A, CHR 0x0B, CHR 0x0C, CHR 0x0D])"

definition trim :: "string \<Rightarrow> string" where
  "trim str = rev (dropWhile isSpace (rev (dropWhile isSpace str)))"

text \<open>The test \<open>/^[a-zA-Z0-9_-]+$/\<close> with the length bounds 4 and 10, as the handler and the
  schema both write it.\<close>

definition validCode :: "string \<Rightarrow> bool" where
  "validCode code =
     (code \<noteq> [] \<and> list_all (\<lambda>c. c \<in> set characters) code \<and>
      4 \<le> length code \<and> length code \<le> 10)"

text \<open>The object \<open>urlData\<close> that is given to \<open>Url.create\<close>.\<close>

record urlData =
  ud_originalUrl :: string
  ud_shortCode :: string
  ud_userId :: objectId
  ud_title :: string
  ud_description :: string
  ud_expiryDate :: "date option"
  ud_tags :: "string list"

text \<open>The new document: the schema's setters and defaults, a fresh \<open>_id\<close>, and the two
  timestamps.\<close>

definition newDocument :: "objectId \<Rightarrow> date \<Rightarrow> urlData \<Rightarrow> url" where
  "newDocument i now data =
     \<lparr>oid = i,
      originalUrl = trim (ud_originalUrl data),
      shortCode = trim (ud_shortCode data),
      userId = Some (ud_userId data),
      title = trim (ud_title data),
      description = trim (ud_description data),
      clicks = 0,
      lastClicked = None,
      isActive = True,
      expiryDate = ud_expiryDate data,
      qrCode = None,
      tags = map trim (ud_tags data),
      recentClicks = [],
      dailyStats = [],
      createdAt = now,
      updatedAt = now\<rparr>"

text \<open>The schema's validators, at the time \<open>now\<close>.\<close>

definition validDocument :: "(string \<Rightarrow> string option) \<Rightarrow> date \<Rightarrow> url \<Rightarrow> bool" where
  "validDocument hostname now d =
     (originalUrl d \<noteq> [] \<and> hostname (originalUrl d) \<noteq> None \<and>
      validCode (shortCode d) \<and>
      length (title d) \<le> 200 \<and>
      length (description d) \<le> 500 \<and>
      (case expiryDate d of None \<Rightarrow> True | Some e \<Rightarrow> e > now) \<and>
      list_all (\<lambda>tag. length tag \<le> 50) (tags d) \<and>
      length (recentClicks d) \<le> 1000)"

text \<open>
  \<open>Url.create\<close>: validation, then the insert under the two unique indexes, \<open>shortCode\<close> and
  \<open>(userId, originalUrl, isActive)\<close>. The error carries the first key of \<open>keyPattern\<close>. When
  both indexes are violated the model reports \<open>shortCode\<close>, the index the schema declares
  first. The deferred update of the owner's \<open>urlCount\<close> is in another collection and is not
  represented.
\<close>

definition UrlCreate ::
  "(string \<Rightarrow> string option) \<Rightarrow> objectId \<Rightarrow> date \<Rightarrow> urlData \<Rightarrow> store \<Rightarrow> error + (url \<times> store)" where
  "UrlCreate hostname i now data s =
     (let doc = newDocument i now data
      in if \<not> validDocument hostname now doc then Inl ValidationError
         else if list_ex (\<lambda>d. shortCode d = shortCode doc) s then Inl (DuplicateKey ''shortCode'')
         else if list_ex (\<lambda>d. userId d = userId doc \<and> originalUrl d = originalUrl doc \<and>
                              isActive d = isActive doc) s
         then Inl (DuplicateKey ''userId'')
         else Inr (doc, s @ [doc]))"

text \<open>What the handler uses of the runtime: the URL parser (see \<open>reduceReferrers\<close>),
  \<open>QRCode.toDataURL\<close> (\<open>None\<close> when it rejects) and \<open>BASE_URL\<close>.\<close>

record runtime =
  hostnameOf :: "string \<Rightarrow> string option"
  toDataURL :: "string \<Rightarrow> string option"
  baseUrl :: string

text \<open>
  What one creation request meets: the clock at the expiry check, at the two inserts and at
  \<open>save\<close>; the \<open>_id\<close> of the first and of the second insert; the randomness of the first and
  of the second \<open>generateShortCode\<close>; and the writes of other requests between the pre-check
  and the first insert, between the failed insert and the next store call, and between the
  second \<open>generateShortCode\<close> and the second insert. The store answers every call of the
  handler.
\<close>

record createEnv =
  checkNow :: date
  insertNow :: date
  retryNow :: date
  saveNow :: date
  firstId :: objectId
  retryId :: objectId
  firstGen :: genEnv
  retryGen :: genEnv
  othersBeforeInsert :: "store \<Rightarrow> store"
  othersBeforeRecovery :: "store \<Rightarrow> store"
  othersBeforeRetryInsert :: "store \<Rightarrow> store"

text \<open>The request after the authentication middleware and \<open>express-validator\<close>:
  \<open>cr_user\<close> is \<open>req.user._id || req.user.id\<close>, absent without \<open>req.user\<close>;
  \<open>cr_expiryDate\<close> is \<open>new Date(expiryDate)\<close> of a given expiry date.\<close>

record createRequest =
  cr_validationErrors :: bool
  cr_user :: "objectId option"
  cr_originalUrl :: string
  cr_customCode :: "string option"
  cr_title :: "string option"
  cr_description :: "string option"
  cr_expiryDate :: "date option"
  cr_tags :: "string list option"

text \<open>The calls to the collection that the handler makes, in order.\<close>

datatype storeCall =
    FindOneCall string
  | GenerateCall
  | CreateCall string
  | FindExistingCall
  | SaveCall

text \<open>Lines 51 to 73: the custom code, checked and looked up, or a generated one, with the
  calls made. An exception of \<open>generateShortCode\<close> reaches the outer \<open>catch\<close>.\<close>

definition pickShortCode ::
  "createEnv \<Rightarrow> string option \<Rightarrow> store \<Rightarrow> (response + string) \<times> storeCall list" where
  "pickShortCode env customCode s =
     (let generated =
            (case generateShortCode (firstGen env) 6 s of
               Inl e \<Rightarrow> (Inl (Json 500 (Message ''Server error while creating short URL'')),
                         [GenerateCall])
             | Inr code \<Rightarrow> (Inr code, [GenerateCall]))
      in case customCode of
           None \<Rightarrow> generated
         | Some code \<Rightarrow>
             (if code = [] then generated
              else if \<not> validCode code
              then (Inl (Json 400 (Message
                ''Custom code must be 4-10 characters long and contain only letters, numbers, hyphens, and underscores'')), [])
              else if findOneByShortCode code s \<noteq> None
              then (Inl (Json 400 (Message ''Custom short code is already taken'')),
                    [FindOneCall code])
              else (Inr code, [FindOneCall code])))"

text \<open>Lines 15 to 96: every early response, or the \<open>urlData\<close> to insert.\<close>

definition prepare ::
  "runtime \<Rightarrow> createEnv \<Rightarrow> createRequest \<Rightarrow> store \<Rightarrow> (response + urlData) \<times> storeCall list" where
  "prepare rt env req s =
     (if cr_validationErrors req then (Inl (Json 400 (Message ''Validation failed'')), [])
      else case cr_user req of
        None \<Rightarrow> (Inl (Json 401 (Message ''Authentication required'')), [])
      | Some uid \<Rightarrow>
          (if hostnameOf rt (cr_originalUrl req) = None
           then (Inl (Json 400 (Message ''Please provide a valid URL'')), [])
           else (let normalizedUrl = trim (cr_originalUrl req)
                 in case pickShortCode env (cr_customCode req) s of
                      (Inl r, calls) \<Rightarrow> (Inl r, calls)
                    | (Inr code, calls) \<Rightarrow>
                        (if (case cr_expiryDate req of None \<Rightarrow> False
                             | Some e \<Rightarrow> e \<le> checkNow env)
                         then (Inl (Json 400 (Message ''Expiry date must be in the future'')), calls)
                         else (Inr \<lparr>ud_originalUrl = normalizedUrl,
                                    ud_shortCode = code,
                                    ud_userId = uid,
                                    ud_title = (case cr_title req of None \<Rightarrow> []
                                                | Some t \<Rightarrow> trim t),
                                    ud_description = (case cr_description req of None \<Rightarrow> []
                                                      | Some t \<Rightarrow> trim t),
                                    ud_expiryDate = cr_expiryDate req,
                                    ud_tags = (case cr_tags req of None \<Rightarrow> []
                                               | Some ts \<Rightarrow>
                                                   filter (\<lambda>tag. length tag > 0)
                                                     (map trim ts))\<rparr>, calls)))))"

text \<open>The QR code: \<open>toDataURL(url.shortUrl)\<close>, then \<open>url.save()\<close>, which writes the changed
  path to the stored document. A failure is caught and the handler goes on.\<close>

definition saveQrCode ::
  "runtime \<Rightarrow> date \<Rightarrow> url \<Rightarrow> store \<Rightarrow> url \<times> store \<times> storeCall list" where
  "saveQrCode rt now doc s =
     (case toDataURL rt (baseUrl rt @ ''/'' @ shortCode doc) of
        None \<Rightarrow> (doc, s, [])
      | Some qrCodeDataUrl \<Rightarrow>
          (case findById (oid doc) s of
             None \<Rightarrow> (doc\<lparr>qrCode := Some qrCodeDataUrl\<rparr>, s, [SaveCall])
           | Some stored \<Rightarrow>
               (doc\<lparr>qrCode := Some qrCodeDataUrl, updatedAt := now\<rparr>,
                replaceById (oid doc)
                  (stored\<lparr>qrCode := Some qrCodeDataUrl, updatedAt := now\<rparr>) s,
                [SaveCall])))"

text \<open>
  Lines 98 to 219: the insert and the handling of a duplicate key. \<open>Inl\<close> in the first
  component is an error thrown on to the outer \<open>catch\<close>.
\<close>

definition createWithRecovery ::
  "runtime \<Rightarrow> createEnv \<Rightarrow> urlData \<Rightarrow> store \<Rightarrow> (error + response) \<times> store \<times> storeCall list" where
  "createWithRecovery rt env data s =
     (let s1 = othersBeforeInsert env s
      in case UrlCreate (hostnameOf rt) (firstId env) (insertNow env) data s1 of
           Inr (doc, s2) \<Rightarrow>
             (let (doc', s3, calls) = saveQrCode rt (saveNow env) doc s2
              in (Inr (Json 201 (UrlBody ''URL shortened successfully'' doc')), s3,
                  CreateCall (ud_shortCode data) # calls))
         | Inl (DuplicateKey duplicateField) \<Rightarrow>
             (let s2 = othersBeforeRecovery env s1
              in if duplicateField = ''shortCode''
                 then (case generateShortCode (retryGen env) 6 s2 of
                         Inl retryError \<Rightarrow>
                           (Inr (Json 500 (Message
                              ''Failed to generate unique short code. Please try again.'')),
                            s2, [CreateCall (ud_shortCode data), GenerateCall])
                       | Inr newShortCode \<Rightarrow>
                           (let s3 = othersBeforeRetryInsert env s2
                            in case UrlCreate (hostnameOf rt) (retryId env) (retryNow env)
                                      (data\<lparr>ud_shortCode := newShortCode\<rparr>) s3 of
                                 Inl retryError \<Rightarrow>
                                   (Inr (Json 500 (Message
                                      ''Failed to generate unique short code. Please try again.'')),
                                    s3, [CreateCall (ud_shortCode data), GenerateCall,
                                         CreateCall newShortCode])
                               | Inr (retryUrl, s4) \<Rightarrow>
                                   (let (doc', s5, calls) = saveQrCode rt (saveNow env) retryUrl s4
                                    in (Inr (Json 201 (UrlBody ''URL shortened successfully'' doc')),
                                        s5, [CreateCall (ud_shortCode data), GenerateCall,
                                             CreateCall newShortCode] @ calls))))
                 else (case findOneActiveByUserUrl (Some (ud_userId data)) (ud_originalUrl data) s2 of
                         Some existingUrl \<Rightarrow>
                           (Inr (Json 200 (UrlBody ''URL already exists'' existingUrl)), s2,
                            [CreateCall (ud_shortCode data), FindExistingCall])
                       | None \<Rightarrow>
                           (Inl (DuplicateKey duplicateField), s2,
                            [CreateCall (ud_shortCode data), FindExistingCall])))
         | Inl e \<Rightarrow> (Inl e, s1, [CreateCall (ud_shortCode data)]))"

text \<open>The handler: the early responses, the insert with its recovery, and the outer
  \<open>catch\<close>, which answers 400 to a \<open>ValidationError\<close> and 500 to everything else.\<close>

definition createShortUrl ::
  "runtime \<Rightarrow> createEnv \<Rightarrow> createRequest \<Rightarrow> store \<Rightarrow> response \<times> store \<times> storeCall list" where
  "createShortUrl rt env req s =
     (case prepare rt env req s of
        (Inl r, calls0) \<Rightarrow> (r, s, calls0)
      | (Inr data, calls0) \<Rightarrow>
          (case createWithRecovery rt env data s of
             (Inr r, s', calls) \<Rightarrow> (r, s', calls0 @ calls)
           | (Inl ValidationError, s', calls) \<Rightarrow>
               (Json 400 (Message ''Validation failed''), s', calls0 @ calls)
           | (Inl e, s', calls) \<Rightarrow>
               (Json 500 (Message ''Server error while creating short URL''), s',
                calls0 @ calls)))"

section \<open>Sample data\<close>

text \<open>\<open>localMidnight\<close> of a process whose time zone is UTC.\<close>

definition utcMidnight :: "date \<Rightarrow> date" where
  "utcMidnight t = t - t mod 86400000"

definition sampleUrlData :: urlData where
  "sampleUrlData =
     \<lparr>ud_originalUrl = ''https://example.com/a'', ud_shortCode = ''mycode'', ud_userId = 7,
      ud_title = [], ud_description = [], ud_expiryDate = None, ud_tags = []\<rparr>"

text \<open>A document as \<open>Url.create\<close> makes it.\<close>

definition sampleUrl :: url where
  "sampleUrl = newDocument 1 1700000000000 sampleUrlData"

definition sampleData :: clickData where
  "sampleData = \<lparr>ip = Some ''203.0.113.7'', userAgent = Some ''curl/8.0'',
                  referer = Some ''https://news.example/item''\<rparr>"

definition sampleCall :: "date \<Rightarrow> call" where
  "sampleCall t = \<lparr>call_now = t, call_updatedAt = t + 1, call_storeUp = True,
                    call_data = sampleData\<rparr>"

text \<open>A generator whose random bytes are all zero, so that every attempt proposes
  \<open>aaaaaa\<close>, and a collection in which that code is taken.\<close>

definition zeroGen :: genEnv where
  "zeroGen = \<lparr>entropy = (\<lambda>attempt. RandomBytes (\<lambda>i. 0)), dateNow = 1700000000000,
               mathRandom36 = ''0.4fzyo82mvyr''\<rparr>"

definition takenStore :: store where
  "takenStore = [sampleUrl\<lparr>shortCode := ''aaaaaa''\<rparr>]"

text \<open>The same for the length 10, with \<open>Math.random()\<close> returning 0.5, whose base-36 string
  is \<open>0.i\<close>.\<close>

definition halfGen :: genEnv where
  "halfGen = zeroGen\<lparr>mathRandom36 := ''0.i''\<rparr>"

definition takenStore10 :: store where
  "takenStore10 = [sampleUrl\<lparr>shortCode := ''aaaaaaaaaa''\<rparr>]"

text \<open>The URL parser on the strings of the samples: it accepts the two URLs, and rejects
  \<open>not a url\<close>, which has no scheme. Other strings do not occur in the samples.\<close>

definition sampleHostname :: "string \<Rightarrow> string option" where
  "sampleHostname str =
     (if str = ''https://example.com/a'' then Some ''example.com''
      else if str = ''https://news.example/item'' then Some ''news.example''
      else None)"

definition sampleRuntime :: runtime where
  "sampleRuntime = \<lparr>hostnameOf = sampleHostname,
                     toDataURL = (\<lambda>str. Some ''data:image/png;base64,AAAA''),
                     baseUrl = ''http://localhost:5001''\<rparr>"

text \<open>A creation request of user 7 for the URL of the sample document, and what it meets,
  given the writes of the other requests.\<close>

definition sampleRequest :: "string option \<Rightarrow> createRequest" where
  "sampleRequest customCode =
     \<lparr>cr_validationErrors = False, cr_user = Some 7,
      cr_originalUrl = ''https://example.com/a'', cr_customCode = customCode,
      cr_title = None, cr_description = None, cr_expiryDate = None, cr_tags = None\<rparr>"

definition sampleCreateEnv ::
  "(store \<Rightarrow> store) \<Rightarrow> (store \<Rightarrow> store) \<Rightarrow> (store \<Rightarrow> store) \<Rightarrow> createEnv" where
  "sampleCreateEnv others1 others2 others3 =
     \<lparr>checkNow = 1700000500000, insertNow = 1700000500001, retryNow = 1700000500002,
      saveNow = 1700000500003, firstId = 2, retryId = 3,
      firstGen = zeroGen, retryGen = zeroGen,
      othersBeforeInsert = others1, othersBeforeRecovery = others2,
      othersBeforeRetryInsert = others3\<rparr>"

text \<open>A document of user 8 with a given short code, as another request inserts it.\<close>

definition rivalUrl :: "objectId \<Rightarrow> string \<Rightarrow> url" where
  "rivalUrl i code =
     newDocument i 1700000400000
       \<lparr>ud_originalUrl = ''https://news.example/item'', ud_shortCode = code, ud_userId = 8,
        ud_title = [], ud_description = [], ud_expiryDate = None, ud_tags = []\<rparr>"

text \<open>The sample document with one recorded click whose \<open>Referer\<close> header was
  \<open>not a url\<close>.\<close>

definition badRefererUrl :: url where
  "badRefererUrl =
     sampleUrl\<lparr>clicks := 1, lastClicked := Some 1700000123456,
               recentClicks := [clickEntry 1700000123456 (sampleData\<lparr>referer := Some ''not a url''\<rparr>)],
               dailyStats := [\<lparr>stat_date = 1699920000000, stat_clicks = 1\<rparr>]\<rparr>"

definition sampleClock :: analyticsClock where
  "sampleClock = \<lparr>thirtyDaysAgo = 1697408000000, sevenDaysAgo = 1699395200000,
                   dayAgo = 1699913600000, expiredNow = 1700000000000\<rparr>"

text \<open>A redirect request during which the store answers the two reads and then fails.\<close>

definition failingRedirectEnv :: redirectEnv where
  "failingRedirectEnv =
     \<lparr>validationErrors = False, findOneUp = True, findByIdUp = True,
      expiryNow = 1700000123450,
      othersBeforeFindById = (\<lambda>s. s), othersBeforeUpdate = (\<lambda>s. s),
      clickCall = (sampleCall 1700000123456)\<lparr>call_storeUp := False\<rparr>\<rparr>"

text \<open>The sample document after a click at 1700000123456, and a redirect request that reads
  the sample document with \<open>findById\<close> just before that click is written by another
  request.\<close>

definition clickedUrl :: url where
  "clickedUrl =
     sampleUrl\<lparr>clicks := 1, lastClicked := Some 1700000123456,
               recentClicks := [clickEntry 1700000123456 sampleData],
               dailyStats := [\<lparr>stat_date = 1699920000000, stat_clicks = 1\<rparr>],
               updatedAt := 1700000123457\<rparr>"

definition racingRedirectEnv :: redirectEnv where
  "racingRedirectEnv =
     \<lparr>validationErrors = False, findOneUp = True, findByIdUp = True,
      expiryNow = 1700000123450,
      othersBeforeFindById = (\<lambda>s. s),
      othersBeforeUpdate = replaceById 1 clickedUrl,
      clickCall = sampleCall 1700000223456\<rparr>"

section \<open>Store primitives: basic facts\<close>

lemma findIndex_neg: "findIndex P xs < 0 \<longleftrightarrow> \<not> list_ex P xs"
  by (induction xs) (auto simp: Let_def)

lemma findIndex_first:
  "0 \<le> findIndex P xs \<Longrightarrow>
     nat (findIndex P xs) < length xs \<and> P (xs ! nat (findIndex P xs)) \<and>
     (\<forall>j < nat (findIndex P xs). \<not> P (xs ! j))"
proof (induction xs)
  case Nil
  then show ?case by simp
next
  case (Cons x xs)
  show ?case
  proof (cases "P x")
    case True
    then show ?thesis by simp
  next
    case False
    with Cons.prems have nn: "0 \<le> findIndex P xs"
      by (auto simp: Let_def split: if_splits)
    from Cons.IH[OF nn] have ih: "nat (findIndex P xs) < length xs"
      "P (xs ! nat (findIndex P xs))" "\<forall>j < nat (findIndex P xs). \<not> P (xs ! j)" by auto
    from False nn have eq: "findIndex P (x # xs) = findIndex P xs + 1"
      by (simp add: Let_def)
    have n: "nat (findIndex P xs + 1) = Suc (nat (findIndex P xs))" using nn by simp
    show ?thesis unfolding eq n using ih False
      by (auto simp: nth_Cons split: nat.splits)
  qed
qed

lemma findById_oid: "findById i s = Some d \<Longrightarrow> oid d = i"
  unfolding findById_def by (induction s) (auto split: if_splits)

lemma findById_replaceById_same:
  "findById i s = Some d \<Longrightarrow> oid r = i \<Longrightarrow> findById i (replaceById i r s) = Some r"
  unfolding findById_def by (induction s) (auto split: if_splits)

lemma findById_replaceById_other:
  "oid r = i \<Longrightarrow> j \<noteq> i \<Longrightarrow> findById j (replaceById i r s) = findById j s"
  unfolding findById_def by (induction s) (auto split: if_splits)

lemma pushSlice_last: "0 < n \<Longrightarrow> pushSlice xs [y] n \<noteq> [] \<and> last (pushSlice xs [y] n) = y"
  by (auto simp: pushSlice_def)

lemma pushSlice_length: "length (pushSlice xs each n) \<le> n"
  by (auto simp: pushSlice_def)

lemma pushSlice_fits: "length xs + length each \<le> n \<Longrightarrow> pushSlice xs each n = xs @ each"
  by (simp add: pushSlice_def)

lemma pushSlice_window:
  "pushSlice (drop (length xs - n) xs) each n = drop (length (xs @ each) - n) (xs @ each)"
  by (simp add: pushSlice_def, rule arg_cong[where f = "\<lambda>k. drop k xs"], arith)

lemma stat_clicks_update_date:
  "stat_date x = t \<Longrightarrow> x\<lparr>stat_clicks := n\<rparr> = \<lparr>stat_date = t, stat_clicks = n\<rparr>"
  by (cases x) simp

lemma sum_stat_clicks_update:
  "i < length ds \<Longrightarrow>
     sum_list (map stat_clicks (ds[i := \<lparr>stat_date = t, stat_clicks = stat_clicks (ds ! i) + n\<rparr>]))
       = sum_list (map stat_clicks ds) + n"
proof (induction ds arbitrary: i)
  case Nil
  then show ?case by simp
next
  case (Cons d ds)
  then show ?case by (cases i) auto
qed

lemma map_stat_date_update:
  "i < length ds \<Longrightarrow> stat_date (ds ! i) = t \<Longrightarrow>
     map stat_date (ds[i := \<lparr>stat_date = t, stat_clicks = n\<rparr>]) = map stat_date ds"
  by (simp add: map_update list_update_same_conv)

lemma list_ex_stat_date:
  "list_ex (\<lambda>stat. stat_date stat = t) ds \<longleftrightarrow> t \<in> set (map stat_date ds)"
  by (auto simp: list_ex_iff)

section \<open>incrementClicks: one call\<close>

lemma applyUpdate_Inr:
  "applyUpdate u t d = Inr d' \<longleftrightarrow>
     (\<exists>ds. applyDaily (daily u) (dailyStats d) = Inr ds \<and>
           d' = d\<lparr>clicks := clicks d + inc_clicks u,
                   lastClicked := Some (set_lastClicked u),
                   recentClicks := pushSlice (recentClicks d) (push_recentClicks_each u)
                                     (push_recentClicks_slice u),
                   dailyStats := ds,
                   updatedAt := t\<rparr>)"
  by (auto simp: applyUpdate_def split: sum.splits)

lemma incrementClicks_Inr:
  "incrementClicks lm c this s = Inr (r', s') \<longleftrightarrow>
     call_storeUp c \<and>
     (\<exists>r. findById (oid this) s = Some r \<and>
          applyUpdate
            \<lparr>inc_clicks = 1, set_lastClicked = call_now c,
             push_recentClicks_each = [clickEntry (call_now c) (call_data c)],
             push_recentClicks_slice = 1000,
             daily = (if findIndex (\<lambda>stat. stat_date stat = lm (call_now c)) (dailyStats this) \<ge> 0
                      then IncDaily (nat (findIndex (\<lambda>stat. stat_date stat = lm (call_now c))
                                            (dailyStats this))) 1
                      else PushDaily [\<lparr>stat_date = lm (call_now c), stat_clicks = 1\<rparr>] 365)\<rparr>
            (call_updatedAt c) r = Inr r' \<and>
          s' = replaceById (oid this) r' s)"
  by (auto simp: incrementClicks_def findByIdAndUpdate_def Let_def
           split: sum.splits option.splits if_splits)

text \<open>What a successful call has done, whatever the document in memory was.\<close>

lemma incrementClicks_InrD:
  assumes "incrementClicks lm c this s = Inr (r', s')"
  obtains r ds where "call_storeUp c" "findById (oid this) s = Some r"
    "r' = r\<lparr>clicks := clicks r + 1, lastClicked := Some (call_now c),
             recentClicks := pushSlice (recentClicks r) [clickEntry (call_now c) (call_data c)] 1000,
             dailyStats := ds, updatedAt := call_updatedAt c\<rparr>"
    "s' = replaceById (oid this) r' s"
    "applyDaily
       (if findIndex (\<lambda>stat. stat_date stat = lm (call_now c)) (dailyStats this) \<ge> 0
        then IncDaily (nat (findIndex (\<lambda>stat. stat_date stat = lm (call_now c))
                              (dailyStats this))) 1
        else PushDaily [\<lparr>stat_date = lm (call_now c), stat_clicks = 1\<rparr>] 365)
       (dailyStats r) = Inr ds"
  using assms unfolding incrementClicks_Inr applyUpdate_Inr by auto

text \<open>A positional increment is in range as soon as the document in memory has no more daily
  entries than the stored one.\<close>

lemma applyDaily_in_range:
  assumes "length (dailyStats this) \<le> length ds"
  shows "\<exists>ds'. applyDaily
           (if findIndex P (dailyStats this) \<ge> 0
            then IncDaily (nat (findIndex P (dailyStats this))) 1
            else PushDaily each 365) ds = Inr ds'"
proof (cases "findIndex P (dailyStats this) \<ge> 0")
  case True
  from findIndex_first[OF True] assms show ?thesis using True by simp
next
  case False
  then show ?thesis by simp
qed

text \<open>The call on a document in memory whose daily entries are those of the stored record
  \<open>r\<close>: everything is computed from \<open>r\<close>.\<close>

lemma incrementClicks_agree:
  assumes stored: "findById (oid this) s = Some r"
      and agree: "dailyStats this = dailyStats r"
      and up: "call_storeUp c"
  shows "\<exists>r' s'. incrementClicks lm c this s = Inr (r', s') \<and>
           findById (oid r') s' = Some r' \<and> oid r' = oid this \<and>
           s' = replaceById (oid this) r' s \<and>
           r' = r\<lparr>clicks := clicks r + 1, lastClicked := Some (call_now c),
                  recentClicks := pushSlice (recentClicks r)
                                    [clickEntry (call_now c) (call_data c)] 1000,
                  dailyStats :=
                    (if list_ex (\<lambda>stat. stat_date stat = lm (call_now c)) (dailyStats r)
                     then (dailyStats r)
                            [nat (findIndex (\<lambda>stat. stat_date stat = lm (call_now c))
                                    (dailyStats r)) :=
                               \<lparr>stat_date = lm (call_now c),
                                stat_clicks = stat_clicks (dailyStats r !
                                  nat (findIndex (\<lambda>stat. stat_date stat = lm (call_now c))
                                         (dailyStats r))) + 1\<rparr>]
                     else pushSlice (dailyStats r)
                            [\<lparr>stat_date = lm (call_now c), stat_clicks = 1\<rparr>] 365),
                  updatedAt := call_updatedAt c\<rparr>"
proof -
  let ?P = "\<lambda>stat. stat_date stat = lm (call_now c)"
  let ?ds = "dailyStats r"
  let ?k = "findIndex ?P ?ds"
  let ?ds' = "if list_ex ?P ?ds
              then ?ds[nat ?k := \<lparr>stat_date = lm (call_now c),
                                   stat_clicks = stat_clicks (?ds ! nat ?k) + 1\<rparr>]
              else pushSlice ?ds [\<lparr>stat_date = lm (call_now c), stat_clicks = 1\<rparr>] 365"
  let ?r' = "r\<lparr>clicks := clicks r + 1, lastClicked := Some (call_now c),
                 recentClicks := pushSlice (recentClicks r)
                                   [clickEntry (call_now c) (call_data c)] 1000,
                 dailyStats := ?ds', updatedAt := call_updatedAt c\<rparr>"
  have o: "oid r = oid this" by (rule findById_oid[OF stored])
  have daily: "applyDaily (if ?k \<ge> 0 then IncDaily (nat ?k) 1
                           else PushDaily [\<lparr>stat_date = lm (call_now c), stat_clicks = 1\<rparr>] 365) ?ds
               = Inr ?ds'"
  proof (cases "list_ex ?P ?ds")
    case True
    then have nn: "0 \<le> ?k" using findIndex_neg[of ?P ?ds] by simp
    from findIndex_first[OF nn]
    have k: "nat ?k < length ?ds" "stat_date (?ds ! nat ?k) = lm (call_now c)" by auto
    show ?thesis using True nn k(1) stat_clicks_update_date[OF k(2)] by simp
  next
    case False
    then have "\<not> 0 \<le> ?k" using findIndex_neg[of ?P ?ds] by simp
    with False show ?thesis by simp
  qed
  have run: "incrementClicks lm c this s = Inr (?r', replaceById (oid this) ?r' s)"
    unfolding incrementClicks_Inr applyUpdate_Inr agree using stored up daily by simp
  have fb: "findById (oid this) (replaceById (oid this) ?r' s) = Some ?r'"
    by (rule findById_replaceById_same[OF stored]) (simp add: o)
  have o': "oid ?r' = oid this" by (simp add: o)
  show ?thesis
    apply (rule exI[of _ ?r'], rule exI[of _ "replaceById (oid this) ?r' s"])
    using run fb o' by simp
qed

text \<open>The call on a document that is the stored one.\<close>

lemma incrementClicks_stored:
  assumes stored: "findById (oid this) s = Some this" and up: "call_storeUp c"
  shows "\<exists>r' s'. incrementClicks lm c this s = Inr (r', s') \<and>
           findById (oid r') s' = Some r' \<and> oid r' = oid this \<and>
           s' = replaceById (oid this) r' s \<and>
           r' = this\<lparr>clicks := clicks this + 1, lastClicked := Some (call_now c),
                  recentClicks := pushSlice (recentClicks this)
                                    [clickEntry (call_now c) (call_data c)] 1000,
                  dailyStats :=
                    (if list_ex (\<lambda>stat. stat_date stat = lm (call_now c)) (dailyStats this)
                     then (dailyStats this)
                            [nat (findIndex (\<lambda>stat. stat_date stat = lm (call_now c))
                                    (dailyStats this)) :=
                               \<lparr>stat_date = lm (call_now c),
                                stat_clicks = stat_clicks (dailyStats this !
                                  nat (findIndex (\<lambda>stat. stat_date stat = lm (call_now c))
                                         (dailyStats this))) + 1\<rparr>]
                     else pushSlice (dailyStats this)
                            [\<lparr>stat_date = lm (call_now c), stat_clicks = 1\<rparr>] 365),
                  updatedAt := call_updatedAt c\<rparr>"
  by (rule incrementClicks_agree[OF stored refl up])

text \<open>The sample document after one click at 1700000123456.\<close>

lemma sample_click:
  "incrementClicks utcMidnight (sampleCall 1700000123456) sampleUrl [sampleUrl] =
     Inr (sampleUrl\<lparr>clicks := 1, lastClicked := Some 1700000123456,
                     recentClicks := [clickEntry 1700000123456 sampleData],
                     dailyStats := [\<lparr>stat_date = 1699920000000, stat_clicks = 1\<rparr>],
                     updatedAt := 1700000123457\<rparr>,
          [sampleUrl\<lparr>clicks := 1, lastClicked := Some 1700000123456,
                     recentClicks := [clickEntry 1700000123456 sampleData],
                     dailyStats := [\<lparr>stat_date = 1699920000000, stat_clicks = 1\<rparr>],
                     updatedAt := 1700000123457\<rparr>])"
  by (simp add: incrementClicks_def findByIdAndUpdate_def applyUpdate_def findById_def
        pushSlice_def Let_def sampleUrl_def newDocument_def sampleCall_def utcMidnight_def)

lemma sampleUrl_stored: "findById (oid sampleUrl) [sampleUrl] = Some sampleUrl"
  by (simp add: findById_def)

section \<open>Claims about one call of incrementClicks\<close>

text \<open>
  The update when the document in memory has the daily entries of the stored record \<open>r\<close>,
  as it has when nothing was written since \<open>findById\<close> read it, and the store answers: the
  call succeeds with one update of that record; \<open>clicks\<close> grows by exactly 1,
  \<open>lastClicked\<close> becomes the current time, the entry with the timestamp and the ip, userAgent
  and referer of the click data is appended to \<open>recentClicks\<close> and the last 1000 entries are
  kept, and for today either the first \<open>dailyStats\<close> entry of that day is incremented by 1
  in place, or, when there is none, \<open>{date: today, clicks: 1}\<close> is appended and the last 365
  entries are kept.
\<close>

lemma incrementClicks_agreeing_copy:
  assumes stored: "findById (oid this) s = Some r"
      and agree: "dailyStats this = dailyStats r"
      and up: "call_storeUp c"
  shows "\<exists>r' s'. incrementClicks lm c this s = Inr (r', s') \<and>
           s' = replaceById (oid this) r' s \<and>
           findById (oid this) s' = Some r' \<and>
           clicks r' = clicks r + 1 \<and>
           lastClicked r' = Some (call_now c) \<and>
           recentClicks r' =
             drop (length (recentClicks r @
                     [\<lparr>ip = ip (call_data c), userAgent = userAgent (call_data c),
                       referer = referer (call_data c), timestamp = call_now c\<rparr>]) - 1000)
                  (recentClicks r @
                     [\<lparr>ip = ip (call_data c), userAgent = userAgent (call_data c),
                       referer = referer (call_data c), timestamp = call_now c\<rparr>]) \<and>
           (if list_ex (\<lambda>stat. stat_date stat = lm (call_now c)) (dailyStats r)
            then \<exists>i < length (dailyStats r).
                   stat_date (dailyStats r ! i) = lm (call_now c) \<and>
                   (\<forall>j < i. stat_date (dailyStats r ! j) \<noteq> lm (call_now c)) \<and>
                   dailyStats r' =
                     (dailyStats r)[i := \<lparr>stat_date = lm (call_now c),
                                           stat_clicks = stat_clicks (dailyStats r ! i) + 1\<rparr>]
            else dailyStats r' =
                   drop (length (dailyStats r @ [\<lparr>stat_date = lm (call_now c), stat_clicks = 1\<rparr>]) - 365)
                        (dailyStats r @ [\<lparr>stat_date = lm (call_now c), stat_clicks = 1\<rparr>]))"
proof -
  let ?P = "\<lambda>stat. stat_date stat = lm (call_now c)"
  let ?ds = "dailyStats r"
  let ?k = "nat (findIndex ?P ?ds)"
  from incrementClicks_agree[OF stored agree up, of lm] obtain r' s' where
    run: "incrementClicks lm c this s = Inr (r', s')" and
    st: "findById (oid r') s' = Some r'" and o: "oid r' = oid this" and
    s': "s' = replaceById (oid this) r' s" and
    r': "r' = r\<lparr>clicks := clicks r + 1, lastClicked := Some (call_now c),
                  recentClicks := pushSlice (recentClicks r)
                                    [clickEntry (call_now c) (call_data c)] 1000,
                  dailyStats :=
                    (if list_ex ?P ?ds
                     then ?ds[?k := \<lparr>stat_date = lm (call_now c),
                                       stat_clicks = stat_clicks (?ds ! ?k) + 1\<rparr>]
                     else pushSlice ?ds [\<lparr>stat_date = lm (call_now c), stat_clicks = 1\<rparr>] 365),
                  updatedAt := call_updatedAt c\<rparr>"
    by blast
  have daily: "if list_ex ?P ?ds
     then \<exists>i < length ?ds. ?P (?ds ! i) \<and> (\<forall>j < i. \<not> ?P (?ds ! j)) \<and>
            dailyStats r' = ?ds[i := \<lparr>stat_date = lm (call_now c),
                                       stat_clicks = stat_clicks (?ds ! i) + 1\<rparr>]
     else dailyStats r' =
            drop (length (?ds @ [\<lparr>stat_date = lm (call_now c), stat_clicks = 1\<rparr>]) - 365)
                 (?ds @ [\<lparr>stat_date = lm (call_now c), stat_clicks = 1\<rparr>])"
  proof (cases "list_ex ?P ?ds")
    case True
    then have nn: "0 \<le> findIndex ?P ?ds" using findIndex_neg[of ?P ?ds] by simp
    from findIndex_first[OF nn] have k: "?k < length ?ds" "?P (?ds ! ?k)"
      "\<forall>j < ?k. \<not> ?P (?ds ! j)" by auto
    have "dailyStats r' = ?ds[?k := \<lparr>stat_date = lm (call_now c),
                                       stat_clicks = stat_clicks (?ds ! ?k) + 1\<rparr>]"
      unfolding r' using True by simp
    with k have "\<exists>i < length ?ds. ?P (?ds ! i) \<and> (\<forall>j < i. \<not> ?P (?ds ! j)) \<and>
            dailyStats r' = ?ds[i := \<lparr>stat_date = lm (call_now c),
                                       stat_clicks = stat_clicks (?ds ! i) + 1\<rparr>]"
      by (intro exI[of _ ?k]) simp
    with True show ?thesis by simp
  next
    case False
    then show ?thesis unfolding r' by (simp add: pushSlice_def)
  qed
  have rest: "clicks r' = clicks r + 1" "lastClicked r' = Some (call_now c)"
    "recentClicks r' =
       drop (length (recentClicks r @
               [\<lparr>ip = ip (call_data c), userAgent = userAgent (call_data c),
                 referer = referer (call_data c), timestamp = call_now c\<rparr>]) - 1000)
            (recentClicks r @
               [\<lparr>ip = ip (call_data c), userAgent = userAgent (call_data c),
                 referer = referer (call_data c), timestamp = call_now c\<rparr>])"
    unfolding r' by (simp_all add: pushSlice_def clickEntry_def)
  from st o have st': "findById (oid this) s' = Some r'" by simp
  from run s' st' rest daily show ?thesis by blast
qed

text \<open>The lemma at the sample document, stored alone, for a click at 1700000123456.\<close>

lemma incrementClicks_agreeing_copy_sample:
  "findById (oid sampleUrl) [sampleUrl] = Some sampleUrl \<and>
   dailyStats sampleUrl = dailyStats sampleUrl \<and>
   call_storeUp (sampleCall 1700000123456) \<and>
   (\<exists>r' s'. incrementClicks utcMidnight (sampleCall 1700000123456) sampleUrl [sampleUrl]
              = Inr (r', s') \<and>
            clicks r' = 1 \<and> lastClicked r' = Some 1700000123456 \<and>
            recentClicks r' =
              [\<lparr>ip = Some ''203.0.113.7'', userAgent = Some ''curl/8.0'',
                referer = Some ''https://news.example/item'', timestamp = 1700000123456\<rparr>] \<and>
            dailyStats r' = [\<lparr>stat_date = 1699920000000, stat_clicks = 1\<rparr>])"
proof -
  have h1: "findById (oid sampleUrl) [sampleUrl] = Some sampleUrl" by (rule sampleUrl_stored)
  have h2: "call_storeUp (sampleCall 1700000123456)" by (simp add: sampleCall_def)
  from incrementClicks_agreeing_copy[OF h1 refl h2, of utcMidnight] obtain r' s' where
    "incrementClicks utcMidnight (sampleCall 1700000123456) sampleUrl [sampleUrl] = Inr (r', s')"
    "clicks r' = clicks sampleUrl + 1"
    "lastClicked r' = Some (call_now (sampleCall 1700000123456))"
    "recentClicks r' =
       drop (length (recentClicks sampleUrl @
                [\<lparr>ip = ip (call_data (sampleCall 1700000123456)),
                  userAgent = userAgent (call_data (sampleCall 1700000123456)),
                  referer = referer (call_data (sampleCall 1700000123456)),
                  timestamp = call_now (sampleCall 1700000123456)\<rparr>]) - 1000)
            (recentClicks sampleUrl @
                [\<lparr>ip = ip (call_data (sampleCall 1700000123456)),
                  userAgent = userAgent (call_data (sampleCall 1700000123456)),
                  referer = referer (call_data (sampleCall 1700000123456)),
                  timestamp = call_now (sampleCall 1700000123456)\<rparr>])"
    "if list_ex (\<lambda>stat. stat_date stat = utcMidnight (call_now (sampleCall 1700000123456)))
          (dailyStats sampleUrl)
     then \<exists>i < length (dailyStats sampleUrl).
            stat_date (dailyStats sampleUrl ! i) = utcMidnight (call_now (sampleCall 1700000123456)) \<and>
            (\<forall>j < i. stat_date (dailyStats sampleUrl ! j)
                       \<noteq> utcMidnight (call_now (sampleCall 1700000123456))) \<and>
            dailyStats r' =
              (dailyStats sampleUrl)
                [i := \<lparr>stat_date = utcMidnight (call_now (sampleCall 1700000123456)),
                        stat_clicks = stat_clicks (dailyStats sampleUrl ! i) + 1\<rparr>]
     else dailyStats r' =
            drop (length (dailyStats sampleUrl @
                    [\<lparr>stat_date = utcMidnight (call_now (sampleCall 1700000123456)),
                      stat_clicks = 1\<rparr>]) - 365)
                 (dailyStats sampleUrl @
                    [\<lparr>stat_date = utcMidnight (call_now (sampleCall 1700000123456)),
                      stat_clicks = 1\<rparr>])"
    by blast
  then have "incrementClicks utcMidnight (sampleCall 1700000123456) sampleUrl [sampleUrl]
               = Inr (r', s') \<and>
             clicks r' = 1 \<and> lastClicked r' = Some 1700000123456 \<and>
             recentClicks r' =
              [\<lparr>ip = Some ''203.0.113.7'', userAgent = Some ''curl/8.0'',
                referer = Some ''https://news.example/item'', timestamp = 1700000123456\<rparr>] \<and>
             dailyStats r' = [\<lparr>stat_date = 1699920000000, stat_clicks = 1\<rparr>]"
    by (simp add: sampleUrl_def newDocument_def sampleCall_def utcMidnight_def sampleData_def)
  with h1 h2 show ?thesis by blast
qed

text \<open>
  C1. The claim asks of every click on an existing record that today's \<open>dailyStats\<close> entry,
  when the record has one, is incremented in place. \<open>incrementClicks\<close> looks for today's
  entry in the document in memory and not in the stored record. So when the document in memory
  has no entry for today while the stored record has one, because another click was written
  after the document was read, the call, the store answering, succeeds, adds 1 to \<open>clicks\<close>,
  sets \<open>lastClicked\<close>, appends the click entry keeping the last 1000, and then appends a
  second \<open>{date: today, clicks: 1}\<close> (keeping the last 365) instead of incrementing the
  existing entry: with fewer than 365 entries before, every entry of the record stays as it was
  and the record has two entries for the same day.
\<close>

theorem stale_copy_appends_second_entry:
  assumes stored: "findById (oid this) s = Some r"
      and up: "call_storeUp c"
      and absent: "\<not> list_ex (\<lambda>stat. stat_date stat = lm (call_now c)) (dailyStats this)"
      and present: "list_ex (\<lambda>stat. stat_date stat = lm (call_now c)) (dailyStats r)"
  shows "\<exists>r' s'. incrementClicks lm c this s = Inr (r', s') \<and>
           s' = replaceById (oid this) r' s \<and>
           findById (oid this) s' = Some r' \<and>
           clicks r' = clicks r + 1 \<and>
           lastClicked r' = Some (call_now c) \<and>
           recentClicks r' =
             drop (length (recentClicks r @
                     [\<lparr>ip = ip (call_data c), userAgent = userAgent (call_data c),
                       referer = referer (call_data c), timestamp = call_now c\<rparr>]) - 1000)
                  (recentClicks r @
                     [\<lparr>ip = ip (call_data c), userAgent = userAgent (call_data c),
                       referer = referer (call_data c), timestamp = call_now c\<rparr>]) \<and>
           dailyStats r' =
             drop (length (dailyStats r @ [\<lparr>stat_date = lm (call_now c), stat_clicks = 1\<rparr>]) - 365)
                  (dailyStats r @ [\<lparr>stat_date = lm (call_now c), stat_clicks = 1\<rparr>]) \<and>
           (length (dailyStats r) < 365 \<longrightarrow>
              dailyStats r' = dailyStats r @ [\<lparr>stat_date = lm (call_now c), stat_clicks = 1\<rparr>] \<and>
              \<not> distinct (map stat_date (dailyStats r')))"
proof -
  let ?P = "\<lambda>stat. stat_date stat = lm (call_now c)"
  let ?new = "\<lparr>stat_date = lm (call_now c), stat_clicks = 1\<rparr>"
  let ?r' = "r\<lparr>clicks := clicks r + 1, lastClicked := Some (call_now c),
                recentClicks := pushSlice (recentClicks r)
                                  [clickEntry (call_now c) (call_data c)] 1000,
                dailyStats := pushSlice (dailyStats r) [?new] 365,
                updatedAt := call_updatedAt c\<rparr>"
  have o: "oid r = oid this" by (rule findById_oid[OF stored])
  from absent have neg: "\<not> 0 \<le> findIndex ?P (dailyStats this)"
    using findIndex_neg[of ?P "dailyStats this"] by simp
  have run: "incrementClicks lm c this s = Inr (?r', replaceById (oid this) ?r' s)"
    unfolding incrementClicks_Inr applyUpdate_Inr using stored up neg by simp
  have fb: "findById (oid this) (replaceById (oid this) ?r' s) = Some ?r'"
    by (rule findById_replaceById_same[OF stored]) (simp add: o)
  have rest: "clicks ?r' = clicks r + 1" "lastClicked ?r' = Some (call_now c)"
    "recentClicks ?r' =
       drop (length (recentClicks r @
               [\<lparr>ip = ip (call_data c), userAgent = userAgent (call_data c),
                 referer = referer (call_data c), timestamp = call_now c\<rparr>]) - 1000)
            (recentClicks r @
               [\<lparr>ip = ip (call_data c), userAgent = userAgent (call_data c),
                 referer = referer (call_data c), timestamp = call_now c\<rparr>])"
    "dailyStats ?r' = drop (length (dailyStats r @ [?new]) - 365) (dailyStats r @ [?new])"
    by (simp_all add: pushSlice_def clickEntry_def)
  have dup: "dailyStats ?r' = dailyStats r @ [?new] \<and> \<not> distinct (map stat_date (dailyStats ?r'))"
    if room: "length (dailyStats r) < 365"
  proof -
    from room have "length (dailyStats r) + length [?new] \<le> 365" by simp
    from pushSlice_fits[OF this] have eq: "dailyStats ?r' = dailyStats r @ [?new]" by simp
    from present have "lm (call_now c) \<in> set (map stat_date (dailyStats r))"
      using list_ex_stat_date[of "lm (call_now c)" "dailyStats r"] by blast
    then have "\<not> distinct (map stat_date (dailyStats r @ [?new]))" by simp
    with eq show ?thesis by simp
  qed
  show ?thesis
    apply (rule exI[of _ ?r'], rule exI[of _ "replaceById (oid this) ?r' s"])
    using run fb rest dup by blast
qed

text \<open>The sample document read before the click at 1700000123456 was written, and the call
  for a click at 1700000223456 on the same day: the record ends with two entries for that
  day, each with one click, where the claim asks for one entry with two.\<close>

lemma sampleUrl_stale: "findById (oid sampleUrl) [clickedUrl] = Some clickedUrl"
  by (simp add: findById_def clickedUrl_def)

theorem stale_copy_appends_second_entry_witness:
  "findById (oid sampleUrl) [clickedUrl] = Some clickedUrl \<and>
   call_storeUp (sampleCall 1700000223456) \<and>
   list_ex (\<lambda>stat. stat_date stat = utcMidnight (call_now (sampleCall 1700000223456)))
     (dailyStats clickedUrl) \<and>
   dailyStats sampleUrl = [] \<and>
   (\<exists>r' s'. incrementClicks utcMidnight (sampleCall 1700000223456) sampleUrl [clickedUrl]
              = Inr (r', s') \<and>
            clicks r' = 2 \<and>
            dailyStats r' = [\<lparr>stat_date = 1699920000000, stat_clicks = 1\<rparr>,
                             \<lparr>stat_date = 1699920000000, stat_clicks = 1\<rparr>])"
proof -
  let ?c = "sampleCall 1700000223456"
  have h1: "findById (oid sampleUrl) [clickedUrl] = Some clickedUrl" by (rule sampleUrl_stale)
  have h2: "call_storeUp ?c" by (simp add: sampleCall_def)
  have e: "dailyStats sampleUrl = []" by (simp add: sampleUrl_def newDocument_def)
  have h3: "\<not> list_ex (\<lambda>stat. stat_date stat = utcMidnight (call_now ?c)) (dailyStats sampleUrl)"
    unfolding e by simp
  have h4: "list_ex (\<lambda>stat. stat_date stat = utcMidnight (call_now ?c)) (dailyStats clickedUrl)"
    by (simp add: clickedUrl_def sampleCall_def utcMidnight_def)
  have room: "length (dailyStats clickedUrl) < 365" by (simp add: clickedUrl_def)
  from stale_copy_appends_second_entry[where lm = utcMidnight and c = ?c and this = sampleUrl
         and r = clickedUrl and s = "[clickedUrl]", OF h1 h2 h3 h4] room obtain r' s' where
    "incrementClicks utcMidnight ?c sampleUrl [clickedUrl] = Inr (r', s')"
    "clicks r' = clicks clickedUrl + 1"
    "dailyStats r' = dailyStats clickedUrl @
                       [\<lparr>stat_date = utcMidnight (call_now ?c), stat_clicks = 1\<rparr>]"
    by blast
  then have "incrementClicks utcMidnight ?c sampleUrl [clickedUrl] = Inr (r', s') \<and>
             clicks r' = 2 \<and>
             dailyStats r' = [\<lparr>stat_date = 1699920000000, stat_clicks = 1\<rparr>,
                              \<lparr>stat_date = 1699920000000, stat_clicks = 1\<rparr>]"
    by (simp add: clickedUrl_def sampleCall_def utcMidnight_def)
  with h1 h2 h4 e show ?thesis by blast
qed

text \<open>The same through \<open>redirectToOriginal\<close>: the request reads the sample document, the
  click of another request at 1700000123456 is written, and the request's own click at
  1700000223456 is recorded from the document it had read.\<close>

lemma clickedUrl_is_click:
  "incrementClicks utcMidnight (sampleCall 1700000123456) sampleUrl [sampleUrl]
     = Inr (clickedUrl, [clickedUrl])"
  using sample_click by (simp add: clickedUrl_def)

lemma redirect_race_two_entries:
  "redirectToOriginal utcMidnight racingRedirectEnv ''mycode'' [sampleUrl] =
     (Redirect 302 ''https://example.com/a'',
      [clickedUrl\<lparr>clicks := 2, lastClicked := Some 1700000223456,
                  recentClicks := [clickEntry 1700000123456 sampleData,
                                   clickEntry 1700000223456 sampleData],
                  dailyStats := [\<lparr>stat_date = 1699920000000, stat_clicks = 1\<rparr>,
                                 \<lparr>stat_date = 1699920000000, stat_clicks = 1\<rparr>],
                  updatedAt := 1700000223457\<rparr>],
      [])"
  by (simp add: redirectToOriginal_def recordClickTry_def racingRedirectEnv_def
        findOneActiveByShortCode_def isExpiredAt_def findById_def Let_def
        incrementClicks_def findByIdAndUpdate_def applyUpdate_def pushSlice_def
        clickedUrl_def sampleUrl_def newDocument_def sampleUrlData_def sampleCall_def
        utcMidnight_def trim_def isSpace_def)

text \<open>
  C9. After every successful call of \<open>incrementClicks\<close>, \<open>recentClicks\<close> is not empty and
  \<open>lastClicked\<close> is the timestamp of its last entry: both are the \<open>now\<close> of the call.
\<close>

theorem lastClicked_is_last_recentClick:
  assumes "incrementClicks lm c this s = Inr (r', s')"
  shows "recentClicks r' \<noteq> [] \<and>
         lastClicked r' = Some (timestamp (last (recentClicks r'))) \<and>
         lastClicked r' = Some (call_now c)"
proof -
  from assms obtain r ds where
    r': "r' = r\<lparr>clicks := clicks r + 1, lastClicked := Some (call_now c),
             recentClicks := pushSlice (recentClicks r) [clickEntry (call_now c) (call_data c)] 1000,
             dailyStats := ds, updatedAt := call_updatedAt c\<rparr>"
    by (rule incrementClicks_InrD)
  have "pushSlice (recentClicks r) [clickEntry (call_now c) (call_data c)] 1000 \<noteq> [] \<and>
        last (pushSlice (recentClicks r) [clickEntry (call_now c) (call_data c)] 1000)
          = clickEntry (call_now c) (call_data c)"
    by (rule pushSlice_last) simp
  then show ?thesis unfolding r' by (simp add: clickEntry_def)
qed

theorem lastClicked_is_last_recentClick_witness:
  "incrementClicks utcMidnight (sampleCall 1700000123456) sampleUrl [sampleUrl] =
     Inr (sampleUrl\<lparr>clicks := 1, lastClicked := Some 1700000123456,
                     recentClicks := [clickEntry 1700000123456 sampleData],
                     dailyStats := [\<lparr>stat_date = 1699920000000, stat_clicks = 1\<rparr>],
                     updatedAt := 1700000123457\<rparr>,
          [sampleUrl\<lparr>clicks := 1, lastClicked := Some 1700000123456,
                     recentClicks := [clickEntry 1700000123456 sampleData],
                     dailyStats := [\<lparr>stat_date = 1699920000000, stat_clicks = 1\<rparr>],
                     updatedAt := 1700000123457\<rparr>]) \<and>
   timestamp (last [clickEntry 1700000123456 sampleData]) = 1700000123456"
  using lastClicked_is_last_recentClick[OF sample_click] sample_click by simp

text \<open>
  C10. A successful call of \<open>incrementClicks\<close> changes, in the stored record, only \<open>clicks\<close>,
  \<open>lastClicked\<close>, \<open>recentClicks\<close>, \<open>dailyStats\<close> and \<open>updatedAt\<close>: \<open>originalUrl\<close>,
  \<open>shortCode\<close>, \<open>userId\<close>, \<open>title\<close>, \<open>description\<close>, \<open>isActive\<close>, \<open>expiryDate\<close>,
  \<open>qrCode\<close> and \<open>tags\<close> (and \<open>_id\<close>, \<open>createdAt\<close>) are those of the record before, and
  the collection differs only in that record.
\<close>

theorem incrementClicks_frame:
  assumes "findById (oid this) s = Some r"
      and "incrementClicks lm c this s = Inr (r', s')"
  shows "oid r' = oid r \<and> originalUrl r' = originalUrl r \<and> shortCode r' = shortCode r \<and>
         userId r' = userId r \<and> title r' = title r \<and> description r' = description r \<and>
         isActive r' = isActive r \<and> expiryDate r' = expiryDate r \<and> qrCode r' = qrCode r \<and>
         tags r' = tags r \<and> createdAt r' = createdAt r \<and>
         r' = r\<lparr>clicks := clicks r', lastClicked := lastClicked r',
                 recentClicks := recentClicks r', dailyStats := dailyStats r',
                 updatedAt := updatedAt r'\<rparr> \<and>
         s' = replaceById (oid r) r' s"
proof -
  from assms(2) obtain r0 ds where
    f: "findById (oid this) s = Some r0" and
    r': "r' = r0\<lparr>clicks := clicks r0 + 1, lastClicked := Some (call_now c),
             recentClicks := pushSlice (recentClicks r0) [clickEntry (call_now c) (call_data c)] 1000,
             dailyStats := ds, updatedAt := call_updatedAt c\<rparr>" and
    s': "s' = replaceById (oid this) r' s"
    by (rule incrementClicks_InrD)
  from f assms(1) have eq: "r0 = r" by simp
  from findById_oid[OF assms(1)] have o: "oid r = oid this" .
  show ?thesis unfolding r' s' eq using o by simp
qed

theorem incrementClicks_frame_witness:
  "findById (oid sampleUrl) [sampleUrl] = Some sampleUrl \<and>
   incrementClicks utcMidnight (sampleCall 1700000123456) sampleUrl [sampleUrl] =
     Inr (sampleUrl\<lparr>clicks := 1, lastClicked := Some 1700000123456,
                     recentClicks := [clickEntry 1700000123456 sampleData],
                     dailyStats := [\<lparr>stat_date = 1699920000000, stat_clicks = 1\<rparr>],
                     updatedAt := 1700000123457\<rparr>,
          [sampleUrl\<lparr>clicks := 1, lastClicked := Some 1700000123456,
                     recentClicks := [clickEntry 1700000123456 sampleData],
                     dailyStats := [\<lparr>stat_date = 1699920000000, stat_clicks = 1\<rparr>],
                     updatedAt := 1700000123457\<rparr>]) \<and>
   shortCode (sampleUrl\<lparr>clicks := 1, lastClicked := Some 1700000123456,
                     recentClicks := [clickEntry 1700000123456 sampleData],
                     dailyStats := [\<lparr>stat_date = 1699920000000, stat_clicks = 1\<rparr>],
                     updatedAt := 1700000123457\<rparr>) = shortCode sampleUrl"
  using incrementClicks_frame[OF sampleUrl_stored sample_click] sampleUrl_stored sample_click
  by simp

section \<open>Sequences of clicks\<close>

text \<open>The sliding window over a run of calls, each on the document the call before returned.\<close>

lemma incrementClicksLoop_window:
  assumes "findById (oid this) s = Some this" and "list_all call_storeUp cs"
      and "length (recentClicks this) \<le> 1000" and "length (dailyStats this) \<le> 365"
  shows "\<exists>r' s'. incrementClicksLoop lm cs this s = Inr (r', s') \<and>
           findById (oid this) s' = Some r' \<and>
           length (recentClicks r') \<le> 1000 \<and> length (dailyStats r') \<le> 365 \<and>
           recentClicks r' =
             drop (length (recentClicks this @ map (\<lambda>c. clickEntry (call_now c) (call_data c)) cs) - 1000)
                  (recentClicks this @ map (\<lambda>c. clickEntry (call_now c) (call_data c)) cs)"
  using assms
proof (induction cs arbitrary: this s)
  case Nil
  then show ?case by simp
next
  case (Cons c cs)
  let ?e = "\<lambda>c. clickEntry (call_now c) (call_data c)"
  from Cons.prems(2) have up: "call_storeUp c" and ups: "list_all call_storeUp cs" by simp_all
  from incrementClicks_stored[OF Cons.prems(1) up, of lm]
  obtain r1 s1 where
    run: "incrementClicks lm c this s = Inr (r1, s1)" and
    st: "findById (oid r1) s1 = Some r1" and o: "oid r1 = oid this" and
    rc: "recentClicks r1 = pushSlice (recentClicks this) [?e c] 1000" and
    ds: "dailyStats r1 =
           (if list_ex (\<lambda>stat. stat_date stat = lm (call_now c)) (dailyStats this)
            then (dailyStats this)
                   [nat (findIndex (\<lambda>stat. stat_date stat = lm (call_now c)) (dailyStats this)) :=
                      \<lparr>stat_date = lm (call_now c),
                       stat_clicks = stat_clicks (dailyStats this !
                         nat (findIndex (\<lambda>stat. stat_date stat = lm (call_now c))
                                (dailyStats this))) + 1\<rparr>]
            else pushSlice (dailyStats this) [\<lparr>stat_date = lm (call_now c), stat_clicks = 1\<rparr>] 365)"
    by (elim exE conjE) simp
  have b1: "length (recentClicks r1) \<le> 1000" unfolding rc by (rule pushSlice_length)
  have b2: "length (dailyStats r1) \<le> 365"
    unfolding ds using Cons.prems(4) by (simp add: pushSlice_length)
  from Cons.IH[OF st ups b1 b2] obtain r' s' where
    loop: "incrementClicksLoop lm cs r1 s1 = Inr (r', s')" and
    st': "findById (oid r1) s' = Some r'" and
    b': "length (recentClicks r') \<le> 1000" "length (dailyStats r') \<le> 365" and
    rc': "recentClicks r' = drop (length (recentClicks r1 @ map ?e cs) - 1000)
                               (recentClicks r1 @ map ?e cs)"
    by blast
  have "recentClicks r' = drop (length (recentClicks this @ map ?e (c # cs)) - 1000)
                               (recentClicks this @ map ?e (c # cs))"
  proof -
    have "recentClicks r' = pushSlice (recentClicks r1) (map ?e cs) 1000"
      unfolding rc' by (simp add: pushSlice_def)
    also have "recentClicks r1 = drop (length (recentClicks this @ [?e c]) - 1000)
                                      (recentClicks this @ [?e c])"
      unfolding rc by (simp add: pushSlice_def)
    also have "pushSlice \<dots> (map ?e cs) 1000 =
               drop (length ((recentClicks this @ [?e c]) @ map ?e cs) - 1000)
                    ((recentClicks this @ [?e c]) @ map ?e cs)"
      by (rule pushSlice_window)
    finally show ?thesis by simp
  qed
  with run loop st' b' o show ?case by simp
qed

text \<open>The daily rollup over a run of calls, as long as the days of the record and of the run
  together are at most 365, so that no entry is dropped.\<close>

lemma incrementClicksLoop_rollup:
  assumes "findById (oid this) s = Some this" and "list_all call_storeUp cs"
      and "distinct (map stat_date (dailyStats this))"
      and "card (set (map stat_date (dailyStats this)) \<union> set (map (\<lambda>c. lm (call_now c)) cs)) \<le> 365"
  shows "\<exists>r' s'. incrementClicksLoop lm cs this s = Inr (r', s') \<and>
           findById (oid this) s' = Some r' \<and>
           clicks r' = clicks this + int (length cs) \<and>
           sum_list (map stat_clicks (dailyStats r')) =
             sum_list (map stat_clicks (dailyStats this)) + int (length cs) \<and>
           distinct (map stat_date (dailyStats r')) \<and>
           set (map stat_date (dailyStats r')) =
             set (map stat_date (dailyStats this)) \<union> set (map (\<lambda>c. lm (call_now c)) cs)"
  using assms
proof (induction cs arbitrary: this s)
  case Nil
  then show ?case by simp
next
  case (Cons c cs)
  let ?day = "\<lambda>c. lm (call_now c)"
  let ?t = "?day c"
  let ?ds = "dailyStats this"
  let ?D = "set (map stat_date ?ds)"
  let ?k = "nat (findIndex (\<lambda>stat. stat_date stat = ?t) ?ds)"
  from Cons.prems(2) have up: "call_storeUp c" and ups: "list_all call_storeUp cs" by simp_all
  from incrementClicks_stored[OF Cons.prems(1) up, of lm]
  obtain r1 s1 where
    run: "incrementClicks lm c this s = Inr (r1, s1)" and
    st: "findById (oid r1) s1 = Some r1" and o: "oid r1 = oid this" and
    cl: "clicks r1 = clicks this + 1" and
    ds: "dailyStats r1 =
           (if list_ex (\<lambda>stat. stat_date stat = ?t) ?ds
            then ?ds[?k := \<lparr>stat_date = ?t, stat_clicks = stat_clicks (?ds ! ?k) + 1\<rparr>]
            else pushSlice ?ds [\<lparr>stat_date = ?t, stat_clicks = 1\<rparr>] 365)"
    by (elim exE conjE) simp
  have step: "map stat_date (dailyStats r1) =
                (if ?t \<in> ?D then map stat_date ?ds else map stat_date ?ds @ [?t])
              \<and> sum_list (map stat_clicks (dailyStats r1)) = sum_list (map stat_clicks ?ds) + 1"
  proof (cases "?t \<in> ?D")
    case True
    then have ex: "list_ex (\<lambda>stat. stat_date stat = ?t) ?ds"
      using list_ex_stat_date[of ?t ?ds] by blast
    then have nn: "0 \<le> findIndex (\<lambda>stat. stat_date stat = ?t) ?ds"
      using findIndex_neg[of "\<lambda>stat. stat_date stat = ?t" ?ds] by simp
    from findIndex_first[OF nn] have k: "?k < length ?ds" "stat_date (?ds ! ?k) = ?t" by auto
    have d1: "dailyStats r1 = ?ds[?k := \<lparr>stat_date = ?t, stat_clicks = stat_clicks (?ds ! ?k) + 1\<rparr>]"
      using ds ex by simp
    show ?thesis unfolding d1
      using True map_stat_date_update[OF k] sum_stat_clicks_update[OF k(1), of ?t 1] by simp
  next
    case False
    then have nex: "\<not> list_ex (\<lambda>stat. stat_date stat = ?t) ?ds"
      using list_ex_stat_date[of ?t ?ds] by blast
    have fin: "finite (?D \<union> set (map ?day (c # cs)))" by simp
    have "card (insert ?t ?D) \<le> card (?D \<union> set (map ?day (c # cs)))"
      by (rule card_mono[OF fin]) auto
    with Cons.prems(4) have "card (insert ?t ?D) \<le> 365" by linarith
    moreover have "card (insert ?t ?D) = Suc (card ?D)" using False by simp
    moreover have "card ?D = length ?ds" using distinct_card[OF Cons.prems(3)] by simp
    ultimately have "length ?ds + length [\<lparr>stat_date = ?t, stat_clicks = 1\<rparr>] \<le> 365" by simp
    from pushSlice_fits[OF this] ds nex
    have d1: "dailyStats r1 = ?ds @ [\<lparr>stat_date = ?t, stat_clicks = 1\<rparr>]" by simp
    show ?thesis unfolding d1 using False by simp
  qed
  have dist1: "distinct (map stat_date (dailyStats r1))"
    using step Cons.prems(3) by (auto split: if_splits)
  have set1: "set (map stat_date (dailyStats r1)) = insert ?t ?D"
    using step by (auto split: if_splits)
  have card1: "card (set (map stat_date (dailyStats r1)) \<union> set (map ?day cs)) \<le> 365"
    using Cons.prems(4) unfolding set1 by simp
  from Cons.IH[OF st ups dist1 card1] obtain r' s' where
    loop: "incrementClicksLoop lm cs r1 s1 = Inr (r', s')" and
    st': "findById (oid r1) s' = Some r'" and
    cl': "clicks r' = clicks r1 + int (length cs)" and
    sum': "sum_list (map stat_clicks (dailyStats r')) =
             sum_list (map stat_clicks (dailyStats r1)) + int (length cs)" and
    dist': "distinct (map stat_date (dailyStats r'))" and
    set': "set (map stat_date (dailyStats r')) =
             set (map stat_date (dailyStats r1)) \<union> set (map ?day cs)"
    by blast
  have "set (map stat_date (dailyStats r')) = ?D \<union> set (map ?day (c # cs))"
    unfolding set' set1 by simp
  with run loop st' cl' sum' dist' o cl step show ?case by simp
qed

text \<open>
  C5. Start from a record as it is created (\<open>clicks\<close> 0, no daily entries) and record any
  sequence of clicks, each call on the document the call before returned and the store
  answering. As long as the clicks fall on at most 365 distinct days, so that no daily entry has
  been dropped (in particular on fewer than 365 days), every call succeeds and at the end
  \<open>clicks\<close> is the sum of the \<open>clicks\<close> fields of all \<open>dailyStats\<close> entries; it is also the
  number of calls, and there is one entry for each day.
\<close>

theorem clicks_equals_dailyStats_sum:
  assumes stored: "findById (oid this) s = Some this"
      and fresh: "clicks this = 0" "dailyStats this = []"
      and up: "list_all call_storeUp cs"
      and days: "card (set (map (\<lambda>c. lm (call_now c)) cs)) \<le> 365"
  shows "\<exists>r' s'. incrementClicksLoop lm cs this s = Inr (r', s') \<and>
           findById (oid this) s' = Some r' \<and>
           clicks r' = sum_list (map stat_clicks (dailyStats r')) \<and>
           clicks r' = int (length cs) \<and>
           length (dailyStats r') = card (set (map (\<lambda>c. lm (call_now c)) cs))"
proof -
  have d: "distinct (map stat_date (dailyStats this))" using fresh by simp
  have c: "card (set (map stat_date (dailyStats this)) \<union> set (map (\<lambda>c. lm (call_now c)) cs)) \<le> 365"
    using fresh days by simp
  from incrementClicksLoop_rollup[OF stored up d c] obtain r' s' where
    loop: "incrementClicksLoop lm cs this s = Inr (r', s')" and
    st: "findById (oid this) s' = Some r'" and
    cl: "clicks r' = clicks this + int (length cs)" and
    sm: "sum_list (map stat_clicks (dailyStats r')) =
           sum_list (map stat_clicks (dailyStats this)) + int (length cs)" and
    dist: "distinct (map stat_date (dailyStats r'))" and
    st_set: "set (map stat_date (dailyStats r')) =
           set (map stat_date (dailyStats this)) \<union> set (map (\<lambda>c. lm (call_now c)) cs)"
    by blast
  have "length (dailyStats r') = card (set (map stat_date (dailyStats r')))"
    using distinct_card[OF dist] by simp
  also have "\<dots> = card (set (map (\<lambda>c. lm (call_now c)) cs))"
    unfolding st_set using fresh by simp
  finally have len: "length (dailyStats r') = card (set (map (\<lambda>c. lm (call_now c)) cs))" .
  from loop st cl sm len fresh show ?thesis by simp
qed

text \<open>The theorem at the sample document and three clicks, two on one day and one on the
  next.\<close>

theorem clicks_equals_dailyStats_sum_witness:
  "findById (oid sampleUrl) [sampleUrl] = Some sampleUrl \<and>
   clicks sampleUrl = 0 \<and> dailyStats sampleUrl = [] \<and>
   list_all call_storeUp
     [sampleCall 1700000123456, sampleCall 1700000223456, sampleCall 1700050000000] \<and>
   card (set (map (\<lambda>c. utcMidnight (call_now c))
     [sampleCall 1700000123456, sampleCall 1700000223456, sampleCall 1700050000000])) \<le> 365 \<and>
   (\<exists>r' s'. incrementClicksLoop utcMidnight
               [sampleCall 1700000123456, sampleCall 1700000223456, sampleCall 1700050000000]
               sampleUrl [sampleUrl] = Inr (r', s') \<and>
            clicks r' = sum_list (map stat_clicks (dailyStats r')) \<and>
            clicks r' = 3 \<and> length (dailyStats r') = 2)"
proof -
  let ?cs = "[sampleCall 1700000123456, sampleCall 1700000223456, sampleCall 1700050000000]"
  have h1: "findById (oid sampleUrl) [sampleUrl] = Some sampleUrl" by (rule sampleUrl_stored)
  have h2: "clicks sampleUrl = 0" and h3: "dailyStats sampleUrl = []"
    by (simp_all add: sampleUrl_def newDocument_def)
  have h4: "list_all call_storeUp ?cs" by (simp add: sampleCall_def)
  have days: "set (map (\<lambda>c. utcMidnight (call_now c)) ?cs) = {1699920000000, 1700006400000}"
    by (simp add: sampleCall_def utcMidnight_def)
  have h5: "card (set (map (\<lambda>c. utcMidnight (call_now c)) ?cs)) \<le> 365"
    unfolding days by simp
  from clicks_equals_dailyStats_sum[OF h1 h2 h3 h4 h5] obtain r' s' where
    "incrementClicksLoop utcMidnight ?cs sampleUrl [sampleUrl] = Inr (r', s')"
    "clicks r' = sum_list (map stat_clicks (dailyStats r'))"
    "clicks r' = int (length ?cs)"
    "length (dailyStats r') = card (set (map (\<lambda>c. utcMidnight (call_now c)) ?cs))"
    by blast
  then have "incrementClicksLoop utcMidnight ?cs sampleUrl [sampleUrl] = Inr (r', s') \<and>
            clicks r' = sum_list (map stat_clicks (dailyStats r')) \<and>
            clicks r' = 3 \<and> length (dailyStats r') = 2"
    unfolding days by simp
  with h1 h2 h3 h4 h5 show ?thesis by blast
qed

text \<open>A successful call keeps the two bounds, whatever the document in memory was.\<close>

lemma incrementClicks_bounds:
  assumes stored: "findById (oid this) s = Some r"
      and run: "incrementClicks lm c this s = Inr (r', s')"
      and b: "length (dailyStats r) \<le> 365"
  shows "length (recentClicks r') \<le> 1000 \<and> length (dailyStats r') \<le> 365"
proof -
  from run obtain r0 ds where
    f: "findById (oid this) s = Some r0" and
    r': "r' = r0\<lparr>clicks := clicks r0 + 1, lastClicked := Some (call_now c),
             recentClicks := pushSlice (recentClicks r0) [clickEntry (call_now c) (call_data c)] 1000,
             dailyStats := ds, updatedAt := call_updatedAt c\<rparr>" and
    d: "applyDaily
          (if findIndex (\<lambda>stat. stat_date stat = lm (call_now c)) (dailyStats this) \<ge> 0
           then IncDaily (nat (findIndex (\<lambda>stat. stat_date stat = lm (call_now c))
                                 (dailyStats this))) 1
           else PushDaily [\<lparr>stat_date = lm (call_now c), stat_clicks = 1\<rparr>] 365)
          (dailyStats r0) = Inr ds"
    by (rule incrementClicks_InrD)
  from f stored have eq: "r0 = r" by simp
  have "length ds \<le> 365"
    using d b unfolding eq by (auto simp: pushSlice_length split: if_splits)
  then show ?thesis unfolding r' by (simp add: pushSlice_length)
qed

lemma newDocument_fresh:
  "clicks (newDocument i now data) = 0 \<and> recentClicks (newDocument i now data) = [] \<and>
   dailyStats (newDocument i now data) = []"
  by (simp add: newDocument_def)

text \<open>
  C6. A new document has no \<open>recentClicks\<close> and no \<open>dailyStats\<close>. Every successful call of
  \<open>incrementClicks\<close> on a record with at most 365 daily entries leaves at most 1000
  \<open>recentClicks\<close> and at most 365 \<open>dailyStats\<close>, whatever the document in memory was. And
  from a record within the two bounds, any sequence of clicks, each call on the document the
  call before returned and the store answering, succeeds and ends within the bounds, with
  \<open>recentClicks\<close> the last 1000 of the old entries followed by the new ones, in the order of
  the calls. In particular, after 1500 clicks on a record that had none, \<open>recentClicks\<close> has
  exactly 1000 entries: those of the last 1000 calls, the first 500 being dropped.
\<close>

theorem analytics_arrays_bounded:
  "(recentClicks (newDocument i now data) = [] \<and> dailyStats (newDocument i now data) = []) \<and>
   (findById (oid doc) st = Some r \<and> length (dailyStats r) \<le> 365 \<and>
    incrementClicks lm c doc st = Inr (r1, st1) \<longrightarrow>
      length (recentClicks r1) \<le> 1000 \<and> length (dailyStats r1) \<le> 365) \<and>
   (findById (oid this) s = Some this \<and> list_all call_storeUp cs \<and>
    length (recentClicks this) \<le> 1000 \<and> length (dailyStats this) \<le> 365 \<longrightarrow>
      (\<exists>r' s'. incrementClicksLoop lm cs this s = Inr (r', s') \<and>
         findById (oid this) s' = Some r' \<and>
         length (recentClicks r') \<le> 1000 \<and> length (dailyStats r') \<le> 365 \<and>
         recentClicks r' =
           drop (length (recentClicks this @ map (\<lambda>c. clickEntry (call_now c) (call_data c)) cs) - 1000)
                (recentClicks this @ map (\<lambda>c. clickEntry (call_now c) (call_data c)) cs) \<and>
         (recentClicks this = [] \<and> length cs = 1500 \<longrightarrow>
            length (recentClicks r') = 1000 \<and>
            recentClicks r' = drop 500 (map (\<lambda>c. clickEntry (call_now c) (call_data c)) cs))))"
proof (intro conjI impI)
  show "recentClicks (newDocument i now data) = []" "dailyStats (newDocument i now data) = []"
    using newDocument_fresh[of i now data] by simp_all
next
  assume "findById (oid doc) st = Some r \<and> length (dailyStats r) \<le> 365 \<and>
          incrementClicks lm c doc st = Inr (r1, st1)"
  then have "length (recentClicks r1) \<le> 1000 \<and> length (dailyStats r1) \<le> 365"
    using incrementClicks_bounds[of doc st r lm c r1 st1] by blast
  then show "length (recentClicks r1) \<le> 1000" "length (dailyStats r1) \<le> 365" by simp_all
next
  assume a: "findById (oid this) s = Some this \<and> list_all call_storeUp cs \<and>
             length (recentClicks this) \<le> 1000 \<and> length (dailyStats this) \<le> 365"
  then have stored: "findById (oid this) s = Some this" and up: "list_all call_storeUp cs"
    and b1: "length (recentClicks this) \<le> 1000" and b2: "length (dailyStats this) \<le> 365"
    by simp_all
  from incrementClicksLoop_window[OF stored up b1 b2, of lm] obtain r' s' where
    loop: "incrementClicksLoop lm cs this s = Inr (r', s')" and
    st: "findById (oid this) s' = Some r'" and
    b: "length (recentClicks r') \<le> 1000" "length (dailyStats r') \<le> 365" and
    rc: "recentClicks r' =
           drop (length (recentClicks this @ map (\<lambda>c. clickEntry (call_now c) (call_data c)) cs) - 1000)
                (recentClicks this @ map (\<lambda>c. clickEntry (call_now c) (call_data c)) cs)"
    by blast
  have "recentClicks this = [] \<and> length cs = 1500 \<longrightarrow>
          length (recentClicks r') = 1000 \<and>
          recentClicks r' = drop 500 (map (\<lambda>c. clickEntry (call_now c) (call_data c)) cs)"
    unfolding rc by simp
  with loop st b rc
  show "\<exists>r' s'. incrementClicksLoop lm cs this s = Inr (r', s') \<and>
         findById (oid this) s' = Some r' \<and>
         length (recentClicks r') \<le> 1000 \<and> length (dailyStats r') \<le> 365 \<and>
         recentClicks r' =
           drop (length (recentClicks this @ map (\<lambda>c. clickEntry (call_now c) (call_data c)) cs) - 1000)
                (recentClicks this @ map (\<lambda>c. clickEntry (call_now c) (call_data c)) cs) \<and>
         (recentClicks this = [] \<and> length cs = 1500 \<longrightarrow>
            length (recentClicks r') = 1000 \<and>
            recentClicks r' = drop 500 (map (\<lambda>c. clickEntry (call_now c) (call_data c)) cs))"
    by blast
qed

text \<open>The theorem at the sample document and 1500 clicks, one per millisecond: the clicks
  500 to 1499 remain.\<close>

theorem analytics_arrays_bounded_witness:
  "findById (oid sampleUrl) [sampleUrl] = Some sampleUrl \<and>
   list_all call_storeUp (map (\<lambda>n. sampleCall (1700000000000 + int n)) [0..<1500]) \<and>
   length (recentClicks sampleUrl) \<le> 1000 \<and> length (dailyStats sampleUrl) \<le> 365 \<and>
   (\<exists>r' s'. incrementClicksLoop utcMidnight
               (map (\<lambda>n. sampleCall (1700000000000 + int n)) [0..<1500]) sampleUrl [sampleUrl]
               = Inr (r', s') \<and>
            length (recentClicks r') = 1000 \<and>
            recentClicks r' =
              map (\<lambda>n. clickEntry (1700000000000 + int n) sampleData) [500..<1500])"
proof -
  let ?cs = "map (\<lambda>n. sampleCall (1700000000000 + int n)) [0..<1500]"
  have h1: "findById (oid sampleUrl) [sampleUrl] = Some sampleUrl" by (rule sampleUrl_stored)
  have h2: "list_all call_storeUp ?cs" by (simp add: list_all_iff sampleCall_def)
  have h3: "length (recentClicks sampleUrl) \<le> 1000" and h4: "length (dailyStats sampleUrl) \<le> 365"
    by (simp_all add: sampleUrl_def newDocument_def)
  have e: "recentClicks sampleUrl = [] \<and> length ?cs = 1500"
    by (simp add: sampleUrl_def newDocument_def)
  have m: "drop 500 (map (\<lambda>c. clickEntry (call_now c) (call_data c)) ?cs) =
           map (\<lambda>n. clickEntry (1700000000000 + int n) sampleData) [500..<1500]"
    by (simp only: drop_map drop_upt map_map o_def) (simp add: sampleCall_def del: upt_rec_numeral)
  from analytics_arrays_bounded[where this = sampleUrl and s = "[sampleUrl]" and cs = ?cs
         and lm = utcMidnight] h1 h2 h3 h4 e
  obtain r' s' where
    "incrementClicksLoop utcMidnight ?cs sampleUrl [sampleUrl] = Inr (r', s')"
    "length (recentClicks r') = 1000"
    "recentClicks r' = drop 500 (map (\<lambda>c. clickEntry (call_now c) (call_data c)) ?cs)"
    by blast
  with m have "incrementClicksLoop utcMidnight ?cs sampleUrl [sampleUrl] = Inr (r', s') \<and>
            length (recentClicks r') = 1000 \<and>
            recentClicks r' =
              map (\<lambda>n. clickEntry (1700000000000 + int n) sampleData) [500..<1500]"
    by simp
  with h1 h2 h3 h4 show ?thesis by blast
qed

section \<open>generateShortCode\<close>

lemma length_characters: "length characters = 64"
  by (simp add: characters_def)

lemma charAt_in_range: "k < length str \<Longrightarrow> charAt str (int k) = [str ! k]"
  by (simp add: charAt_def)

lemma randomChar_RandomBytes:
  "randomChar (RandomBytes b) i = [characters ! (unat (b i) mod 64)]"
  by (simp add: randomChar_def length_characters charAt_in_range)

lemma randomChar_MathRandom:
  assumes "0 \<le> r i" and "r i < 1"
  shows "randomChar (MathRandom r) i = [characters ! nat \<lfloor>r i * 64\<rfloor>] \<and> nat \<lfloor>r i * 64\<rfloor> < 64"
proof -
  have lo: "0 \<le> \<lfloor>r i * 64\<rfloor>" using assms(1) by simp
  have "r i * 64 < 64" using assms(2) by simp
  then have hi: "\<lfloor>r i * 64\<rfloor> < 64" by (simp add: floor_less_iff)
  from lo hi have n: "nat \<lfloor>r i * 64\<rfloor> < 64" by linarith
  from lo hi n show ?thesis by (simp add: randomChar_def length_characters charAt_def)
qed

lemma randomChar_single:
  assumes "unitInterval src len" and "i < len"
  shows "\<exists>k < 64. randomChar src i = [characters ! k]"
proof (cases src)
  case (RandomBytes b)
  have "unat (b i) mod 64 < 64" by simp
  with RandomBytes show ?thesis using randomChar_RandomBytes[of b i] by blast
next
  case (MathRandom r)
  with assms have "0 \<le> r i" "r i < 1" by (auto simp: unitInterval_def list_all_iff)
  from randomChar_MathRandom[of r i, OF this] MathRandom show ?thesis by blast
qed

lemma concat_singles:
  assumes "\<forall>i < n. \<exists>c \<in> A. f i = [c]"
  shows "length (concat (map f [0..<n])) = n \<and> set (concat (map f [0..<n])) \<subseteq> A"
  using assms by (induction n) auto

lemma randomCode_shape:
  assumes "unitInterval src len"
  shows "length (randomCode src len) = len \<and> set (randomCode src len) \<subseteq> set characters"
proof -
  have "\<forall>i < len. \<exists>c \<in> set characters. randomChar src i = [c]"
  proof (intro allI impI)
    fix i assume "i < len"
    from randomChar_single[OF assms this] obtain k where "k < 64" "randomChar src i = [characters ! k]"
      by blast
    then show "\<exists>c \<in> set characters. randomChar src i = [c]"
      using nth_mem[of k characters] by (simp add: length_characters)
  qed
  from concat_singles[OF this] show ?thesis by (simp add: randomCode_def)
qed

lemma attempts_Some:
  "attempts env len s a = Some code \<Longrightarrow>
     \<exists>k. a \<le> k \<and> k < maxAttempts \<and> code = randomCode (entropy env k) len \<and>
         findOneByShortCode code s = None"
proof (induction env len s a rule: attempts.induct)
  case (1 env len s attempt)
  show ?case
  proof (cases "attempt < maxAttempts")
    case False
    with "1.prems" show ?thesis by (simp add: attempts.simps)
  next
    case True
    show ?thesis
    proof (cases "findOneByShortCode (randomCode (entropy env attempt) len) s = None")
      case free: True
      with True "1.prems" have "code = randomCode (entropy env attempt) len"
        by (simp add: attempts.simps[of env len s attempt])
      with True free show ?thesis by blast
    next
      case taken: False
      with True "1.prems" have "attempts env len s (attempt + 1) = Some code"
        by (simp add: attempts.simps[of env len s attempt])
      from "1.IH"[OF True refl taken this] obtain k where
        "attempt + 1 \<le> k" "k < maxAttempts" "code = randomCode (entropy env k) len"
        "findOneByShortCode code s = None" by blast
      then show ?thesis by (intro exI[of _ k]) simp
    qed
  qed
qed

lemma attempts_None:
  "(\<forall>k. a \<le> k \<and> k < maxAttempts \<longrightarrow>
        findOneByShortCode (randomCode (entropy env k) len) s \<noteq> None) \<Longrightarrow>
   attempts env len s a = None"
proof (induction env len s a rule: attempts.induct)
  case (1 env len s attempt)
  show ?case
  proof (cases "attempt < maxAttempts")
    case False
    then show ?thesis by (simp add: attempts.simps)
  next
    case True
    with "1.prems" have taken: "findOneByShortCode (randomCode (entropy env attempt) len) s \<noteq> None"
      by simp
    have "attempts env len s (attempt + 1) = None"
      by (rule "1.IH"[OF True refl taken]) (use "1.prems" in auto)
    with True taken show ?thesis by (simp add: attempts.simps[of env len s attempt] Let_def)
  qed
qed

lemma digits36_characters: "set digits36 \<subseteq> set characters"
  by (simp add: digits36_def characters_def)

lemma length_digits36: "length digits36 = 36"
  by (simp add: digits36_def)

lemma toString36_digits: "set (toString36 n) \<subseteq> set digits36"
proof (induction n rule: toString36.induct)
  case (1 n)
  show ?case
  proof (cases "n < 36")
    case True
    then show ?thesis using nth_mem[of n digits36]
      by (simp add: toString36.simps[of n] length_digits36)
  next
    case False
    have "n mod 36 < length digits36" by (simp add: length_digits36)
    from nth_mem[OF this] "1.IH"[OF False] False show ?thesis
      by (simp add: toString36.simps[of n])
  qed
qed

lemma toString36_length_ge: "36 ^ k \<le> n \<Longrightarrow> k < length (toString36 n)"
proof (induction n arbitrary: k rule: toString36.induct)
  case (1 n)
  show ?case
  proof (cases "n < 36")
    case True
    have "k = 0"
    proof (rule ccontr)
      assume "k \<noteq> 0"
      then obtain j where k: "k = Suc j" by (cases k) auto
      have "(1::nat) \<le> 36 ^ j" by simp
      then have "(36::nat) \<le> 36 ^ k" unfolding k by simp
      with "1.prems" True show False by linarith
    qed
    with True show ?thesis by (simp add: toString36.simps[of n])
  next
    case False
    show ?thesis
    proof (cases k)
      case 0
      then show ?thesis using False by (simp add: toString36.simps[of n])
    next
      case (Suc j)
      with "1.prems" have "36 ^ j * 36 \<le> n" by (simp add: mult.commute)
      then have "36 ^ j \<le> n div 36" by (simp add: less_eq_div_iff_mult_less_eq)
      from "1.IH"[OF False this] Suc False show ?thesis
        by (simp add: toString36.simps[of n])
    qed
  qed
qed

lemma fallbackCode_eq:
  "fallbackCode env len =
     take (max len 8) (toString36 (dateNow env) @ take 6 (drop 2 (mathRandom36 env)))"
  by (simp add: fallbackCode_def substring_def Let_def)

lemma generateShortCode_Inr:
  "generateShortCode env len s = Inr code \<longleftrightarrow>
     (attempts env len s 0 = Some code \<or>
      attempts env len s 0 = None \<and> code = fallbackCode env len \<and>
        findOneByShortCode (fallbackCode env len) s = None)"
  by (auto simp: generateShortCode_def split: option.splits)
text \<open>The generator with zero bytes on the collection in which \<open>aaaaaa\<close> is taken: all 50
  attempts collide and the fallback is returned.\<close>

lemma zero_code: "randomCode (RandomBytes (\<lambda>i. 0)) 6 = ''aaaaaa''"
  by (simp add: randomCode_def randomChar_def charAt_def characters_def upt_conv_Cons)

lemma zeroGen_exhausted: "attempts zeroGen 6 takenStore 0 = None"
  by (rule attempts_None)
     (simp add: zeroGen_def zero_code takenStore_def findOneByShortCode_def)

lemma zeroGen_fallback: "fallbackCode zeroGen 6 = ''loyw3v28''"
  by (simp add: fallbackCode_eq zeroGen_def toString36.simps digits36_def)

lemma zeroGen_run: "generateShortCode zeroGen 6 takenStore = Inr ''loyw3v28''"
  by (simp add: generateShortCode_def zeroGen_exhausted zeroGen_fallback)
     (simp add: takenStore_def findOneByShortCode_def)

lemma zero_code10: "randomCode (RandomBytes (\<lambda>i. 0)) 10 = ''aaaaaaaaaa''"
  by (simp add: randomCode_def randomChar_def charAt_def characters_def upt_conv_Cons)

lemma halfGen_exhausted: "attempts halfGen 10 takenStore10 0 = None"
  by (rule attempts_None)
     (simp add: halfGen_def zeroGen_def zero_code10 takenStore10_def findOneByShortCode_def)

lemma halfGen_fallback: "fallbackCode halfGen 10 = ''loyw3v28i''"
  by (simp add: fallbackCode_eq halfGen_def zeroGen_def toString36.simps digits36_def)

text \<open>
  C2, as it is written, fails on the fallback path: for the length 6 the fallback code has 8
  characters, and for the length 10 with a short random string it has 9, fewer than
  \<open>max(length, 8)\<close>.
\<close>

theorem generateShortCode_fallback_counterexample:
  "generateShortCode zeroGen 6 takenStore = Inr ''loyw3v28'' \<and> length ''loyw3v28'' \<noteq> 6 \<and>
   generateShortCode halfGen 10 takenStore10 = Inr ''loyw3v28i'' \<and>
   length ''loyw3v28i'' < max 10 8"
proof -
  have a: "generateShortCode zeroGen 6 takenStore = Inr ''loyw3v28''"
    by (simp add: generateShortCode_def zeroGen_exhausted zeroGen_fallback)
       (simp add: takenStore_def findOneByShortCode_def)
  have b: "generateShortCode halfGen 10 takenStore10 = Inr ''loyw3v28i''"
    by (simp add: generateShortCode_def halfGen_exhausted halfGen_fallback)
       (simp add: takenStore10_def findOneByShortCode_def)
  from a b show ?thesis by simp
qed

text \<open>
  C2, amended. Let \<open>generateShortCode(length)\<close> return a code, with every \<open>Math.random()\<close>
  in the unit interval and \<open>Math.random().toString(36)\<close> made of base-36 digits after its
  first two characters. The code is not in the collection and all its characters are in the
  64-character alphabet. When it comes from a random attempt it has exactly \<open>length\<close>
  characters. When it is the fallback, it is the first \<open>max(length, 8)\<close> characters of the
  base-36 timestamp followed by the characters 2 to 7 of the random string: base-36 digits only,
  at most \<open>max(length, 8)\<close> of them and never padded, at least 8 once the timestamp has 8
  digits, and so exactly 8 for every length up to 8.
\<close>

theorem generateShortCode_shape:
  assumes ret: "generateShortCode env len s = Inr code"
      and rnd: "list_all (\<lambda>attempt. unitInterval (entropy env attempt) len) [0..<maxAttempts]"
      and r36: "list_all (\<lambda>c. c \<in> set digits36) (drop 2 (mathRandom36 env))"
  shows "findOneByShortCode code s = None \<and> set code \<subseteq> set characters \<and>
         (if attempts env len s 0 = None
          then code = take (max len 8)
                        (toString36 (dateNow env) @ take 6 (drop 2 (mathRandom36 env))) \<and>
               set code \<subseteq> set digits36 \<and> length code \<le> max len 8 \<and>
               (36 ^ 7 \<le> dateNow env \<longrightarrow> 8 \<le> length code) \<and>
               (36 ^ 7 \<le> dateNow env \<and> len \<le> 8 \<longrightarrow> length code = 8)
          else attempts env len s 0 = Some code \<and> length code = len \<and>
               (\<exists>attempt < maxAttempts. code = randomCode (entropy env attempt) len))"
proof (cases "attempts env len s 0")
  case None
  with ret have code: "code = fallbackCode env len"
    and free: "findOneByShortCode code s = None"
    by (simp_all add: generateShortCode_Inr)
  let ?ts = "toString36 (dateNow env)"
  let ?rnd = "take 6 (drop 2 (mathRandom36 env))"
  have eq: "code = take (max len 8) (?ts @ ?rnd)" unfolding code by (rule fallbackCode_eq)
  have "set ?rnd \<subseteq> set (drop 2 (mathRandom36 env))" by (rule set_take_subset)
  also have "\<dots> \<subseteq> set digits36" using r36 by (auto simp: list_all_iff)
  finally have rd: "set ?rnd \<subseteq> set digits36" .
  have "set code \<subseteq> set (?ts @ ?rnd)" unfolding eq by (rule set_take_subset)
  with rd toString36_digits[of "dateNow env"] have dg: "set code \<subseteq> set digits36" by auto
  with digits36_characters have ch: "set code \<subseteq> set characters" by blast
  have le: "length code \<le> max len 8" unfolding eq by simp
  have ge: "8 \<le> length code" if "36 ^ 7 \<le> dateNow env"
  proof -
    from toString36_length_ge[OF that] have "8 \<le> length ?ts" by simp
    then show ?thesis unfolding eq by simp
  qed
  have ex: "length code = 8" if "36 ^ 7 \<le> dateNow env \<and> len \<le> 8"
  proof -
    from that have "max len 8 = 8" by simp
    with le ge that show ?thesis by simp
  qed
  have fb: "code = take (max len 8) (?ts @ ?rnd) \<and>
            set code \<subseteq> set digits36 \<and> length code \<le> max len 8 \<and>
            (36 ^ 7 \<le> dateNow env \<longrightarrow> 8 \<le> length code) \<and>
            (36 ^ 7 \<le> dateNow env \<and> len \<le> 8 \<longrightarrow> length code = 8)"
    using eq dg le ge ex by blast
  show ?thesis by (simp only: if_P[OF None]) (use free ch fb in blast)
next
  case (Some c)
  with ret have c: "c = code" by (simp add: generateShortCode_Inr)
  from attempts_Some[OF Some[unfolded c]] obtain k where
    k: "k < maxAttempts" "code = randomCode (entropy env k) len"
    and free: "findOneByShortCode code s = None" by blast
  from rnd k(1) have "unitInterval (entropy env k) len" by (simp add: list_all_iff)
  from randomCode_shape[OF this] k(2)
  have sh: "length code = len" "set code \<subseteq> set characters" by simp_all
  have ne: "attempts env len s 0 \<noteq> None" using Some by simp
  have rp: "attempts env len s 0 = Some code \<and> length code = len \<and>
            (\<exists>attempt < maxAttempts. code = randomCode (entropy env attempt) len)"
    using Some c sh(1) k by blast
  show ?thesis by (simp only: if_not_P[OF ne]) (use free sh(2) rp in blast)
qed

text \<open>The theorem at the run of the counterexample.\<close>

theorem generateShortCode_shape_witness:
  "generateShortCode zeroGen 6 takenStore = Inr ''loyw3v28'' \<and>
   list_all (\<lambda>attempt. unitInterval (entropy zeroGen attempt) 6) [0..<maxAttempts] \<and>
   list_all (\<lambda>c. c \<in> set digits36) (drop 2 (mathRandom36 zeroGen)) \<and>
   attempts zeroGen 6 takenStore 0 = None \<and>
   set ''loyw3v28'' \<subseteq> set characters \<and> length ''loyw3v28'' = 8"
proof -
  have h2: "list_all (\<lambda>attempt. unitInterval (entropy zeroGen attempt) 6) [0..<maxAttempts]"
    by (simp add: list_all_iff zeroGen_def unitInterval_def)
  have h3: "list_all (\<lambda>c. c \<in> set digits36) (drop 2 (mathRandom36 zeroGen))"
    by (simp add: zeroGen_def digits36_def)
  from generateShortCode_shape[OF zeroGen_run h2 h3]
  have c: "set ''loyw3v28'' \<subseteq> set characters" by blast
  have l: "length ''loyw3v28'' = 8" by simp
  from zeroGen_run h2 h3 zeroGen_exhausted c l show ?thesis by blast
qed


section \<open>createShortUrl\<close>

text \<open>Trimming a trimmed string changes nothing.\<close>

lemma dropWhile_rev_dropWhile:
  "dropWhile P (rev (dropWhile P (rev (dropWhile P xs)))) = rev (dropWhile P (rev (dropWhile P xs)))"
proof (cases "dropWhile P xs")
  case Nil
  show ?thesis unfolding Nil by simp
next
  case (Cons y ys)
  then have ny: "\<not> P y" using hd_dropWhile[of P xs] by auto
  have "rev (dropWhile P (rev (y # ys))) \<noteq> [] \<and> hd (rev (dropWhile P (rev (y # ys)))) = y"
  proof -
    have "rev (y # ys) = rev ys @ [y]" by simp
    moreover have "dropWhile P (rev ys @ [y]) = dropWhile P (rev ys) @ [y]"
      using ny by (induction "rev ys" arbitrary: ys) (auto simp: dropWhile_append)
    ultimately have "rev (dropWhile P (rev (y # ys))) = y # rev (dropWhile P (rev ys))" by simp
    then show ?thesis by simp
  qed
  then obtain zs where "rev (dropWhile P (rev (y # ys))) = y # zs"
    by (cases "rev (dropWhile P (rev (y # ys)))") auto
  with ny show ?thesis unfolding Cons by simp
qed

lemma trim_idem: "trim (trim str) = trim str"
  unfolding trim_def by (simp add: dropWhile_rev_dropWhile)

lemma createShortUrl_after_prepare:
  "prepare rt env req s = (Inr data, calls0) \<Longrightarrow>
   createShortUrl rt env req s =
     (case createWithRecovery rt env data s of
        (Inr r, s', calls) \<Rightarrow> (r, s', calls0 @ calls)
      | (Inl ValidationError, s', calls) \<Rightarrow>
          (Json 400 (Message ''Validation failed''), s', calls0 @ calls)
      | (Inl e, s', calls) \<Rightarrow>
          (Json 500 (Message ''Server error while creating short URL''), s', calls0 @ calls))"
  by (simp add: createShortUrl_def)

lemma saveQrCode_shape:
  "saveQrCode rt now doc s = (doc', s', calls) \<Longrightarrow>
     shortCode doc' = shortCode doc \<and> oid doc' = oid doc \<and> originalUrl doc' = originalUrl doc \<and>
     userId doc' = userId doc \<and> set calls \<subseteq> {SaveCall}"
  by (auto simp: saveQrCode_def split: option.splits)

lemma prepare_originalUrl:
  "prepare rt env req s = (Inr data, calls0) \<Longrightarrow> ud_originalUrl data = trim (cr_originalUrl req)"
  by (auto simp: prepare_def Let_def split: if_splits option.splits prod.splits sum.splits)

lemma UrlCreate_DuplicateKey:
  assumes "UrlCreate hostname i now data s = Inl (DuplicateKey field)"
  shows "field = ''shortCode'' \<or>
         field = ''userId'' \<and>
         list_ex (\<lambda>d. userId d = Some (ud_userId data) \<and>
                       originalUrl d = trim (ud_originalUrl data) \<and> isActive d) s"
  using assms
  by (auto simp: UrlCreate_def Let_def newDocument_def split: if_splits)

lemma find_list_ex: "list_ex P xs \<Longrightarrow> \<exists>x. find P xs = Some x \<and> P x"
  by (induction xs) auto

text \<open>The sample requests, evaluated.\<close>

lemma zeroGen_first_try:
  "findOneByShortCode ''aaaaaa'' s = None \<Longrightarrow> generateShortCode zeroGen 6 s = Inr ''aaaaaa''"
  by (simp add: generateShortCode_def attempts.simps[of zeroGen 6 s 0] maxAttempts_def)
     (simp add: zeroGen_def zero_code)

lemmas sample_defs =
  sampleRuntime_def sampleHostname_def sampleCreateEnv_def sampleRequest_def sampleUrl_def
  sampleUrlData_def rivalUrl_def newDocument_def trim_def isSpace_def

lemma sample_prepare:
  "findOneByShortCode code s = None \<Longrightarrow> validCode code \<Longrightarrow>
   prepare sampleRuntime (sampleCreateEnv others1 others2 others3) (sampleRequest (Some code)) s =
     (Inr (sampleUrlData\<lparr>ud_shortCode := code\<rparr>), [FindOneCall code])"
  by (auto simp: prepare_def pickShortCode_def Let_def validCode_def sample_defs)

lemma valid_mycode: "validCode ''mycode''" and valid_other1: "validCode ''other1''"
  and valid_aaaaaa: "validCode ''aaaaaa''"
  by (simp_all add: validCode_def characters_def)

lemma dup_shortCode_first:
  "UrlCreate sampleHostname 2 1700000500001 sampleUrlData [rivalUrl 9 ''mycode'']
     = Inl (DuplicateKey ''shortCode'')"
  by (simp add: UrlCreate_def validDocument_def validCode_def characters_def Let_def sample_defs)

lemma dup_shortCode_retry:
  "UrlCreate sampleHostname 3 1700000500002 (sampleUrlData\<lparr>ud_shortCode := ''aaaaaa''\<rparr>)
     [rivalUrl 9 ''mycode'', rivalUrl 10 ''aaaaaa''] = Inl (DuplicateKey ''shortCode'')"
  by (simp add: UrlCreate_def validDocument_def validCode_def characters_def Let_def sample_defs)

lemma dup_userId_first:
  "UrlCreate sampleHostname 2 1700000500001 (sampleUrlData\<lparr>ud_shortCode := ''other1''\<rparr>)
     [sampleUrl] = Inl (DuplicateKey ''userId'')"
  by (simp add: UrlCreate_def validDocument_def validCode_def characters_def Let_def sample_defs)



text \<open>
  C4, as it is written, fails when the lookup after the duplicate key on
  \<open>(userId, originalUrl, isActive)\<close> finds nothing: here another request deactivates the
  existing record between the failed insert and the lookup, and the caller gets 500.
\<close>

theorem duplicate_url_lookup_counterexample:
  "UrlCreate sampleHostname 2 1700000500001 (sampleUrlData\<lparr>ud_shortCode := ''other1''\<rparr>)
     [sampleUrl] = Inl (DuplicateKey ''userId'') \<and>
   createShortUrl sampleRuntime
     (sampleCreateEnv (\<lambda>s. s) (map (\<lambda>d. d\<lparr>isActive := False\<rparr>)) (\<lambda>s. s))
     (sampleRequest (Some ''other1'')) [sampleUrl] =
     (Json 500 (Message ''Server error while creating short URL''),
      [sampleUrl\<lparr>isActive := False\<rparr>],
      [FindOneCall ''other1'', CreateCall ''other1'', FindExistingCall])"
proof -
  let ?env = "sampleCreateEnv (\<lambda>s. s) (map (\<lambda>d. d\<lparr>isActive := False\<rparr>)) (\<lambda>s. s)"
  have prep: "prepare sampleRuntime ?env (sampleRequest (Some ''other1'')) [sampleUrl]
                = (Inr (sampleUrlData\<lparr>ud_shortCode := ''other1''\<rparr>), [FindOneCall ''other1''])"
    by (rule sample_prepare[OF _ valid_other1]) (simp add: findOneByShortCode_def sample_defs)
  have rec: "createWithRecovery sampleRuntime ?env (sampleUrlData\<lparr>ud_shortCode := ''other1''\<rparr>)
               [sampleUrl] =
             (Inl (DuplicateKey ''userId''), [sampleUrl\<lparr>isActive := False\<rparr>],
              [CreateCall ''other1'', FindExistingCall])"
    using dup_userId_first
    by (simp add: createWithRecovery_def sampleRuntime_def sampleCreateEnv_def Let_def
          findOneActiveByUserUrl_def sampleUrlData_def)
  show ?thesis
    using dup_userId_first
    by (simp add: createShortUrl_after_prepare[OF prep] rec)
qed

text \<open>
  C4, amended. Let the request reach the insert, and let the insert fail with a duplicate key
  that is not on \<open>shortCode\<close>. The handler looks up the active record of that user and URL
  in the collection as it is then. When there is one, the answer is 200 with that record and
  no error is reported; when there is none, the duplicate-key error is thrown on and the
  answer is 500. When no other request has written between the failed insert and the lookup,
  there is one: an active record of that user with that URL.
\<close>

theorem duplicate_url_returns_existing_if_found:
  assumes prep: "prepare rt env req s = (Inr data, calls0)"
      and dup: "UrlCreate (hostnameOf rt) (firstId env) (insertNow env) data
                  (othersBeforeInsert env s) = Inl (DuplicateKey field)"
      and field: "field \<noteq> ''shortCode''"
  shows "(case findOneActiveByUserUrl (Some (ud_userId data)) (ud_originalUrl data)
                (othersBeforeRecovery env (othersBeforeInsert env s)) of
            Some existingUrl \<Rightarrow>
              createShortUrl rt env req s =
                (Json 200 (UrlBody ''URL already exists'' existingUrl),
                 othersBeforeRecovery env (othersBeforeInsert env s),
                 calls0 @ [CreateCall (ud_shortCode data), FindExistingCall])
          | None \<Rightarrow>
              createShortUrl rt env req s =
                (Json 500 (Message ''Server error while creating short URL''),
                 othersBeforeRecovery env (othersBeforeInsert env s),
                 calls0 @ [CreateCall (ud_shortCode data), FindExistingCall])) \<and>
         (othersBeforeRecovery env (othersBeforeInsert env s) = othersBeforeInsert env s \<longrightarrow>
            (\<exists>existingUrl.
               createShortUrl rt env req s =
                 (Json 200 (UrlBody ''URL already exists'' existingUrl),
                  othersBeforeInsert env s,
                  calls0 @ [CreateCall (ud_shortCode data), FindExistingCall]) \<and>
               userId existingUrl = Some (ud_userId data) \<and>
               originalUrl existingUrl = ud_originalUrl data \<and> isActive existingUrl))"
proof -
  let ?s1 = "othersBeforeInsert env s"
  let ?s2 = "othersBeforeRecovery env ?s1"
  let ?look = "\<lambda>st. findOneActiveByUserUrl (Some (ud_userId data)) (ud_originalUrl data) st"
  have run: "createShortUrl rt env req s =
               (case ?look ?s2 of
                  Some existingUrl \<Rightarrow>
                    (Json 200 (UrlBody ''URL already exists'' existingUrl), ?s2,
                     calls0 @ [CreateCall (ud_shortCode data), FindExistingCall])
                | None \<Rightarrow>
                    (Json 500 (Message ''Server error while creating short URL''), ?s2,
                     calls0 @ [CreateCall (ud_shortCode data), FindExistingCall]))"
    using dup field
    by (simp add: createShortUrl_after_prepare[OF prep] createWithRecovery_def Let_def
             split: option.splits)
  have first: "case ?look ?s2 of
            Some existingUrl \<Rightarrow>
              createShortUrl rt env req s =
                (Json 200 (UrlBody ''URL already exists'' existingUrl), ?s2,
                 calls0 @ [CreateCall (ud_shortCode data), FindExistingCall])
          | None \<Rightarrow>
              createShortUrl rt env req s =
                (Json 500 (Message ''Server error while creating short URL''), ?s2,
                 calls0 @ [CreateCall (ud_shortCode data), FindExistingCall])"
    unfolding run by (simp split: option.splits)
  have second: "\<exists>existingUrl.
               createShortUrl rt env req s =
                 (Json 200 (UrlBody ''URL already exists'' existingUrl), ?s1,
                  calls0 @ [CreateCall (ud_shortCode data), FindExistingCall]) \<and>
               userId existingUrl = Some (ud_userId data) \<and>
               originalUrl existingUrl = ud_originalUrl data \<and> isActive existingUrl"
    if same: "?s2 = ?s1"
  proof -
    have tr: "trim (ud_originalUrl data) = ud_originalUrl data"
      unfolding prepare_originalUrl[OF prep] by (rule trim_idem)
    from UrlCreate_DuplicateKey[OF dup] field
    have "list_ex (\<lambda>d. userId d = Some (ud_userId data) \<and>
                        originalUrl d = ud_originalUrl data \<and> isActive d) ?s1"
      unfolding tr by simp
    from find_list_ex[OF this] obtain e where
      e: "?look ?s1 = Some e" "userId e = Some (ud_userId data)"
         "originalUrl e = ud_originalUrl data" "isActive e"
      unfolding findOneActiveByUserUrl_def by blast
    from run e show ?thesis unfolding same by simp
  qed
  from first second show ?thesis by blast
qed

text \<open>The theorem at a second request of user 7 for the URL of the sample document, with no
  other request writing.\<close>

theorem duplicate_url_returns_existing_if_found_witness:
  "prepare sampleRuntime (sampleCreateEnv (\<lambda>s. s) (\<lambda>s. s) (\<lambda>s. s))
     (sampleRequest (Some ''other1'')) [sampleUrl]
     = (Inr (sampleUrlData\<lparr>ud_shortCode := ''other1''\<rparr>), [FindOneCall ''other1'']) \<and>
   UrlCreate sampleHostname 2 1700000500001 (sampleUrlData\<lparr>ud_shortCode := ''other1''\<rparr>)
     [sampleUrl] = Inl (DuplicateKey ''userId'') \<and>
   ''userId'' \<noteq> ''shortCode'' \<and>
   createShortUrl sampleRuntime (sampleCreateEnv (\<lambda>s. s) (\<lambda>s. s) (\<lambda>s. s))
     (sampleRequest (Some ''other1'')) [sampleUrl] =
     (Json 200 (UrlBody ''URL already exists'' sampleUrl), [sampleUrl],
      [FindOneCall ''other1'', CreateCall ''other1'', FindExistingCall])"
proof -
  let ?env = "sampleCreateEnv (\<lambda>s. s) (\<lambda>s. s) (\<lambda>s. s)"
  have prep: "prepare sampleRuntime ?env (sampleRequest (Some ''other1'')) [sampleUrl]
                = (Inr (sampleUrlData\<lparr>ud_shortCode := ''other1''\<rparr>), [FindOneCall ''other1''])"
    by (rule sample_prepare[OF _ valid_other1]) (simp add: findOneByShortCode_def sample_defs)
  have dup: "UrlCreate (hostnameOf sampleRuntime) (firstId ?env) (insertNow ?env)
               (sampleUrlData\<lparr>ud_shortCode := ''other1''\<rparr>)
               (othersBeforeInsert ?env [sampleUrl]) = Inl (DuplicateKey ''userId'')"
    using dup_userId_first by (simp add: sampleRuntime_def sampleCreateEnv_def)
  have f: "''userId'' \<noteq> ''shortCode''" by simp
  have look: "findOneActiveByUserUrl
                (Some (ud_userId (sampleUrlData\<lparr>ud_shortCode := ''other1''\<rparr>)))
                (ud_originalUrl (sampleUrlData\<lparr>ud_shortCode := ''other1''\<rparr>))
                (othersBeforeRecovery ?env (othersBeforeInsert ?env [sampleUrl])) = Some sampleUrl"
    by (simp add: findOneActiveByUserUrl_def sampleCreateEnv_def sample_defs)
  from duplicate_url_returns_existing_if_found[OF prep dup f, unfolded look option.case]
  have "createShortUrl sampleRuntime ?env (sampleRequest (Some ''other1'')) [sampleUrl] =
     (Json 200 (UrlBody ''URL already exists'' sampleUrl), [sampleUrl],
      [FindOneCall ''other1'', CreateCall ''other1'', FindExistingCall])"
    by (simp add: sampleCreateEnv_def sampleUrlData_def)
  with prep dup_userId_first f show ?thesis by blast
qed


section \<open>getUrlAnalytics\<close>

lemma reduceReferrers_throws:
  assumes "click \<in> set cs" and "referer click = Some str" and "hostname str = None"
  shows "reduceReferrers hostname cs acc = Inl TypeError"
  using assms
proof (induction cs arbitrary: acc)
  case Nil
  then show ?case by simp
next
  case (Cons c cs)
  show ?case
  proof (cases "c = click")
    case True
    with Cons.prems show ?thesis by simp
  next
    case False
    with Cons.prems have "click \<in> set cs" by simp
    from Cons.IH[OF this Cons.prems(2,3)] show ?thesis
      by (simp split: option.splits)
  qed
qed

lemma reduceReferrers_succeeds:
  assumes "list_all (\<lambda>click. case referer click of None \<Rightarrow> False
                              | Some str \<Rightarrow> hostname str \<noteq> None) cs"
  shows "\<exists>referrers. reduceReferrers hostname cs acc = Inr referrers"
  using assms
  by (induction cs arbitrary: acc) (auto split: option.splits)

text \<open>
  C7 says that \<open>getUrlAnalytics\<close> succeeds for every existing record and leaves out the
  clicks whose referer cannot be parsed. The code does not: \<open>new URL(click.referer)\<close> is
  not guarded inside the \<open>reduce\<close>. For every record of the user that holds one click with
  a non-empty referer the URL parser rejects, the request ends in the handler's \<open>catch\<close>
  and is answered 500 with no summary.
\<close>

theorem unparseable_referer_fails_analytics:
  assumes up: "up"
      and found: "findOneByIdUser i u s = Some d"
      and click: "click \<in> set (recentClicks d)"
      and ref: "referer click = Some str" "str \<noteq> []"
      and bad: "hostname str = None"
  shows "getUrlAnalytics hostname clock up i u s =
           (Json 500 (Message ''Server error while fetching analytics''),
            [AnalyticsError TypeError])"
proof -
  from click ref have "click \<in> set (filter (\<lambda>click. truthy (referer click)) (recentClicks d))"
    by (simp add: truthy_def)
  from reduceReferrers_throws[where hostname = hostname and str = str, OF this ref(1) bad]
  have "topReferrersOf hostname (recentClicks d) = Inl TypeError"
    by (simp add: topReferrersOf_def)
  with up found show ?thesis by (simp add: getUrlAnalytics_def Let_def)
qed

text \<open>The theorem at the sample document with one click whose referer is
  \<open>not a url\<close>.\<close>

theorem unparseable_referer_fails_analytics_witness:
  "findOneByIdUser 1 7 [badRefererUrl] = Some badRefererUrl \<and>
   clickEntry 1700000123456 (sampleData\<lparr>referer := Some ''not a url''\<rparr>)
     \<in> set (recentClicks badRefererUrl) \<and>
   sampleHostname ''not a url'' = None \<and>
   getUrlAnalytics sampleHostname sampleClock True 1 7 [badRefererUrl] =
     (Json 500 (Message ''Server error while fetching analytics''), [AnalyticsError TypeError])"
proof -
  have h1: "True" by simp
  have h2: "findOneByIdUser 1 7 [badRefererUrl] = Some badRefererUrl"
    by (simp add: findOneByIdUser_def badRefererUrl_def sampleUrl_def newDocument_def
          sampleUrlData_def)
  have h3: "clickEntry 1700000123456 (sampleData\<lparr>referer := Some ''not a url''\<rparr>)
              \<in> set (recentClicks badRefererUrl)"
    by (simp add: badRefererUrl_def)
  have h4: "referer (clickEntry 1700000123456 (sampleData\<lparr>referer := Some ''not a url''\<rparr>))
              = Some ''not a url''"
    by (simp add: clickEntry_def)
  have h5: "''not a url'' \<noteq> []" by simp
  have h6: "sampleHostname ''not a url'' = None" by (simp add: sampleHostname_def)
  from unparseable_referer_fails_analytics[where hostname = sampleHostname
         and str = "''not a url''" and clock = sampleClock, OF h1 h2 h3 h4 h5 h6] h2 h3 h6
  show ?thesis by blast
qed


section \<open>redirectToOriginal\<close>

text \<open>
  C8. Let the request have no validation errors, let the store answer the first \<open>findOne\<close>
  with an active record for the short code, and let the record not be expired. Then the
  answer is the redirect 302 to its \<open>originalUrl\<close>, whatever happens while the click is
  recorded. When \<open>findById\<close> fails, and when \<open>incrementClicks\<close> fails with any error
  \<open>e\<close>, the error is logged as a failed analytics update and the same redirect is sent.
\<close>

theorem redirect_survives_click_failure:
  assumes valid: "\<not> validationErrors env"
      and up: "findOneUp env"
      and found: "findOneActiveByShortCode code s = Some found"
      and fresh: "\<not> isExpiredAt (expiryNow env) found"
  shows "(\<exists>s' logs. redirectToOriginal lm env code s = (Redirect 302 (originalUrl found), s', logs)) \<and>
         (\<not> findByIdUp env \<longrightarrow>
            redirectToOriginal lm env code s =
              (Redirect 302 (originalUrl found), othersBeforeFindById env s,
               [AnalyticsUpdateFailed StoreError])) \<and>
         (\<forall>urlDoc e.
            findByIdUp env \<and>
            findById (oid found) (othersBeforeFindById env s) = Some urlDoc \<and> isActive urlDoc \<and>
            incrementClicks lm (clickCall env) urlDoc
              (othersBeforeUpdate env (othersBeforeFindById env s)) = Inl e \<longrightarrow>
            redirectToOriginal lm env code s =
              (Redirect 302 (originalUrl found),
               othersBeforeUpdate env (othersBeforeFindById env s),
               [AnalyticsUpdateFailed e]))"
proof -
  obtain s' logs where r: "recordClickTry lm env found s = (s', logs)"
    by (cases "recordClickTry lm env found s")
  have run: "redirectToOriginal lm env code s =
               (Redirect 302 (originalUrl found), recordClickTry lm env found s)"
    using valid up found fresh by (simp add: redirectToOriginal_def split: prod.splits)
  have a: "\<exists>s' logs. redirectToOriginal lm env code s = (Redirect 302 (originalUrl found), s', logs)"
    unfolding run r by blast
  have b: "redirectToOriginal lm env code s =
              (Redirect 302 (originalUrl found), othersBeforeFindById env s,
               [AnalyticsUpdateFailed StoreError])" if "\<not> findByIdUp env"
    unfolding run using that by (simp add: recordClickTry_def Let_def)
  have c: "redirectToOriginal lm env code s =
              (Redirect 302 (originalUrl found),
               othersBeforeUpdate env (othersBeforeFindById env s),
               [AnalyticsUpdateFailed e])"
    if "findByIdUp env \<and>
        findById (oid found) (othersBeforeFindById env s) = Some urlDoc \<and> isActive urlDoc \<and>
        incrementClicks lm (clickCall env) urlDoc
          (othersBeforeUpdate env (othersBeforeFindById env s)) = Inl e" for urlDoc e
    unfolding run using that by (simp add: recordClickTry_def Let_def)
  from a b c show ?thesis by blast
qed

text \<open>The sample document, with the store failing at the update.\<close>

lemma sample_update_fails:
  "incrementClicks utcMidnight (clickCall failingRedirectEnv) sampleUrl [sampleUrl] = Inl StoreError"
  by (simp add: incrementClicks_def findByIdAndUpdate_def Let_def failingRedirectEnv_def
        sampleCall_def)

theorem redirect_survives_click_failure_witness:
  "\<not> validationErrors failingRedirectEnv \<and> findOneUp failingRedirectEnv \<and>
   findOneActiveByShortCode ''mycode'' [sampleUrl] = Some sampleUrl \<and>
   \<not> isExpiredAt (expiryNow failingRedirectEnv) sampleUrl \<and>
   incrementClicks utcMidnight (clickCall failingRedirectEnv) sampleUrl [sampleUrl] = Inl StoreError \<and>
   redirectToOriginal utcMidnight failingRedirectEnv ''mycode'' [sampleUrl] =
     (Redirect 302 ''https://example.com/a'', [sampleUrl], [AnalyticsUpdateFailed StoreError])"
proof -
  have h1: "\<not> validationErrors failingRedirectEnv" and h2: "findOneUp failingRedirectEnv"
    by (simp_all add: failingRedirectEnv_def)
  have h3: "findOneActiveByShortCode ''mycode'' [sampleUrl] = Some sampleUrl"
    by (simp add: findOneActiveByShortCode_def sample_defs)
  have h4: "\<not> isExpiredAt (expiryNow failingRedirectEnv) sampleUrl"
    by (simp add: isExpiredAt_def sample_defs)
  have pre: "findByIdUp failingRedirectEnv \<and>
             findById (oid sampleUrl) (othersBeforeFindById failingRedirectEnv [sampleUrl])
               = Some sampleUrl \<and> isActive sampleUrl \<and>
             incrementClicks utcMidnight (clickCall failingRedirectEnv) sampleUrl
               (othersBeforeUpdate failingRedirectEnv
                  (othersBeforeFindById failingRedirectEnv [sampleUrl])) = Inl StoreError"
    using sample_update_fails
    by (simp add: failingRedirectEnv_def findById_def sampleUrl_def newDocument_def)
  from redirect_survives_click_failure[OF h1 h2 h3 h4, of utcMidnight] pre
  have "redirectToOriginal utcMidnight failingRedirectEnv ''mycode'' [sampleUrl] =
          (Redirect 302 (originalUrl sampleUrl),
           othersBeforeUpdate failingRedirectEnv
             (othersBeforeFindById failingRedirectEnv [sampleUrl]),
           [AnalyticsUpdateFailed StoreError])"
    by blast
  then have "redirectToOriginal utcMidnight failingRedirectEnv ''mycode'' [sampleUrl] =
     (Redirect 302 ''https://example.com/a'', [sampleUrl], [AnalyticsUpdateFailed StoreError])"
    by (simp add: failingRedirectEnv_def sample_defs)
  with h1 h2 h3 h4 sample_update_fails show ?thesis by blast
qed


end
